theory Spec2Isabelle
  imports Complex_Main "HOL-Library.Char_ord" "HOL-Library.List_Lexorder" "HOL-Library.AList"
    "HOL-Library.Log_Nat"
begin

section \<open>Swap collector (collectors/swap-collector.py)\<close>

text \<open>
  Python integers are modelled by \<open>int\<close>, strings by \<open>string\<close>. The collector writes the
  amounts of a swap as \<open>str(n)\<close> and the analyzer reads them back with \<open>int(...)\<close>; the
  model keeps the integer itself. Every call into the web3 client that may raise is a
  field of the record \<open>web3\<close> returning an option, \<open>None\<close> standing for the exception.
\<close>

datatype error =
  RpcError | ValueError | ZeroDivisionError | FileNotFoundError | KeyError | TypeError | OverflowError

record swap_args =
  arg_sender :: string
  arg_recipient :: string
  arg_amount0 :: int
  arg_amount1 :: int
  arg_sqrtPriceX96 :: int
  arg_liquidity :: int
  arg_tick :: int

text \<open>
  A raw log as \<open>get_logs\<close> returns it. \<open>log_args\<close> is what
  \<open>contract.events.Swap().process_log(log)\<close> decodes from it, \<open>None\<close> when it raises.
\<close>

record raw_log =
  blockNumber :: int
  transactionHash :: string
  logIndex :: int
  log_args :: "swap_args option"

record web3 =
  block_number :: "nat option"
  to_checksum_address :: "string \<Rightarrow> string option"
  get_logs :: "string \<Rightarrow> int \<Rightarrow> int \<Rightarrow> raw_log list option"
  get_block_timestamp :: "int \<Rightarrow> int option"
  utc_isoformat :: "int \<Rightarrow> string option"

text \<open>The dictionary built for one swap; \<open>pool\<close> and \<open>pool_name\<close> are set by \<open>collect_pool\<close>.\<close>

record swap =
  block :: int
  tx_hash :: string
  log_index :: int
  timestamp :: int
  datetime :: string
  sender :: string
  recipient :: string
  amount0 :: int
  amount1 :: int
  sqrt_price_x96 :: int
  liquidity :: int
  tick :: int
  direction :: string
  pool :: string
  pool_name :: string

text \<open>
  The files under \<open>DATA_DIR\<close>: \<open>last_block.json\<close> (\<open>None\<close> while it does not exist) and
  the daily files, keyed by pool name and date string.
\<close>

record store =
  last_block_file :: "(string \<rightharpoonup> int) option"
  daily_files :: "string \<times> string \<Rightarrow> swap list"

definition get_last_block :: "store \<Rightarrow> string \<Rightarrow> int" where
  "get_last_block st pool_name' =
     (case last_block_file st of
        Some data \<Rightarrow> (case data pool_name' of Some b \<Rightarrow> b | None \<Rightarrow> 0)
      | None \<Rightarrow> 0)"

definition save_last_block :: "store \<Rightarrow> string \<Rightarrow> int \<Rightarrow> store" where
  "save_last_block st pool_name' block' =
     (let data = (case last_block_file st of Some d \<Rightarrow> d | None \<Rightarrow> Map.empty)
      in st\<lparr>last_block_file := Some (data(pool_name' \<mapsto> block'))\<rparr>)"

definition BATCH_SIZE :: int where
  "BATCH_SIZE = 25"

text \<open>
  The first loop of \<open>get_swaps\<close>: \<open>for batch_start in range(from_block, to_block + 1, BATCH_SIZE)\<close>,
  with \<open>logs\<close> as the accumulator. A batch whose query raises is skipped.
\<close>

function fetch_batches :: "web3 \<Rightarrow> string \<Rightarrow> int \<Rightarrow> int \<Rightarrow> raw_log list \<Rightarrow> raw_log list" where
  "fetch_batches w3 pool_address batch_start to_block logs =
     (if batch_start < to_block + 1 then
        (let batch_end = min (batch_start + BATCH_SIZE - 1) to_block
         in case get_logs w3 pool_address batch_start batch_end of
              Some batch_logs \<Rightarrow>
                fetch_batches w3 pool_address (batch_start + BATCH_SIZE) to_block (logs @ batch_logs)
            | None \<Rightarrow>
                fetch_batches w3 pool_address (batch_start + BATCH_SIZE) to_block logs)
      else logs)"
  by pat_completeness auto
termination
  by (relation "measure (\<lambda>(w3, a, batch_start, to_block, logs). nat (to_block + 1 - batch_start))")
     (auto simp: BATCH_SIZE_def)

definition direction_of :: "int \<Rightarrow> string" where
  "direction_of amt0 = (if amt0 > 0 then ''sell_token0'' else ''buy_token0'')"

text \<open>
  The body of the second loop of \<open>get_swaps\<close> for one log: decode, fetch the block's
  timestamp, build the dictionary. Any exception inside the \<open>try\<close> gives \<open>None\<close>.
\<close>

definition decode_swap :: "web3 \<Rightarrow> raw_log \<Rightarrow> swap option" where
  "decode_swap w3 lg =
     (case log_args lg of None \<Rightarrow> None | Some args \<Rightarrow>
      (case get_block_timestamp w3 (blockNumber lg) of None \<Rightarrow> None | Some ts \<Rightarrow>
       (case utc_isoformat w3 ts of None \<Rightarrow> None | Some iso_str \<Rightarrow>
          Some \<lparr>block = blockNumber lg,
                tx_hash = transactionHash lg,
                log_index = logIndex lg,
                timestamp = ts,
                datetime = iso_str,
                sender = arg_sender args,
                recipient = arg_recipient args,
                amount0 = arg_amount0 args,
                amount1 = arg_amount1 args,
                sqrt_price_x96 = arg_sqrtPriceX96 args,
                liquidity = arg_liquidity args,
                tick = arg_tick args,
                direction = direction_of (arg_amount0 args),
                pool = [],
                pool_name = []\<rparr>)))"

fun decode_all :: "web3 \<Rightarrow> raw_log list \<Rightarrow> swap list" where
  "decode_all w3 [] = []"
| "decode_all w3 (lg # logs) =
     (case decode_swap w3 lg of
        Some s \<Rightarrow> s # decode_all w3 logs
      | None \<Rightarrow> decode_all w3 logs)"

definition get_swaps :: "web3 \<Rightarrow> string \<Rightarrow> int \<Rightarrow> int \<Rightarrow> error + swap list" where
  "get_swaps w3 pool_address from_block to_block =
     (case to_checksum_address w3 pool_address of
        None \<Rightarrow> Inl ValueError
      | Some addr \<Rightarrow> Inr (decode_all w3 (fetch_batches w3 addr from_block to_block [])))"

text \<open>
  \<open>collect_pool\<close>; \<open>today\<close> is \<open>datetime.utcnow().strftime('%Y-%m-%d')\<close>. The result is the
  returned count together with the files as the call leaves them.
\<close>

definition collect_pool ::
  "web3 \<Rightarrow> string \<Rightarrow> store \<Rightarrow> string \<Rightarrow> string \<Rightarrow> int \<Rightarrow> error + (int \<times> store)" where
  "collect_pool w3 today st name pool_address lookback_blocks =
     (case block_number w3 of
        None \<Rightarrow> Inl RpcError
      | Some head \<Rightarrow>
         (let current_block = int head;
              last_block = get_last_block st name;
              from_block = (if last_block = 0 then current_block - lookback_blocks
                            else last_block + 1)
          in if from_block \<ge> current_block then Inr (0, st)
             else
               (case get_swaps w3 pool_address from_block current_block of
                  Inl e \<Rightarrow> Inl e
                | Inr swaps \<Rightarrow>
                   (let st1 = (if swaps \<noteq> [] then
                                 st\<lparr>daily_files := (daily_files st)((name, today) :=
                                       daily_files st (name, today) @
                                       map (\<lambda>s. s\<lparr>pool := pool_address, pool_name := name\<rparr>) swaps)\<rparr>
                               else st);
                        st2 = save_last_block st1 name current_block
                    in Inr (int (length swaps), st2)))))"

text \<open>
  \<open>collect_all\<close> catches whatever a pool's \<open>collect_pool\<close> raises and goes on; a run of
  calls on the files is the fold below, each call with the ledger it observes.
\<close>

fun sync_calls :: "(web3 \<times> string \<times> string \<times> string \<times> int) list \<Rightarrow> store \<Rightarrow> store" where
  "sync_calls [] st = st"
| "sync_calls ((w3, today, name, pool_address, lookback_blocks) # cs) st =
     (case collect_pool w3 today st name pool_address lookback_blocks of
        Inl e \<Rightarrow> sync_calls cs st
      | Inr (n, st') \<Rightarrow> sync_calls cs st')"

section \<open>Floating-point numbers\<close>

text \<open>
  The floats of Python and numpy are IEEE 754 numbers. A finite one is modelled by the
  real number it stands for; the sign of a zero is not modelled. \<open>round_to p emin\<close>
  rounds a real to the nearest number with \<open>p\<close> significant bits whose last bit is
  worth at least \<open>2 powi emin\<close>, a tie going to the even one; a result beyond the largest
  finite number of the format is an infinity. \<open>double\<close> is binary64, the \<open>float\<close> of
  Python and \<open>float64\<close> of numpy; \<open>float32\<close> is binary32.
\<close>

datatype fp = Finite real | PInf | NInf | NaN

definition round_half_even :: "real \<Rightarrow> int" where
  "round_half_even x =
     (let f = \<lfloor>x\<rfloor>; r = x - real_of_int f
      in if r < 1 / 2 then f else if r > 1 / 2 then f + 1 else if even f then f else f + 1)"

text \<open>
  The exponent of the last bit of the numbers around \<open>x\<close>: with \<open>n\<close> the number of bits
  of the integer part of \<open>|x| / 2 powi emin\<close>, it is \<open>n + emin - p\<close>, and \<open>emin\<close> at least.
\<close>

definition ulp_exponent :: "nat \<Rightarrow> int \<Rightarrow> real \<Rightarrow> int" where
  "ulp_exponent p emin x = max emin (bitlen \<lfloor>\<bar>x\<bar> * 2 powi (- emin)\<rfloor> + emin - int p)"

definition round_to :: "nat \<Rightarrow> int \<Rightarrow> real \<Rightarrow> real" where
  "round_to p emin x =
     (let e = ulp_exponent p emin x
      in real_of_int (round_half_even (x / 2 powi e)) * 2 powi e)"

definition fp_round :: "nat \<Rightarrow> int \<Rightarrow> real \<Rightarrow> real \<Rightarrow> fp" where
  "fp_round p emin fmax x =
     (let y = round_to p emin x
      in if y > fmax then PInf else if y < - fmax then NInf else Finite y)"

definition DBL_MAX :: real where
  "DBL_MAX = (2 ^ 53 - 1) * 2 ^ 971"

definition FLT_MAX :: real where
  "FLT_MAX = (2 ^ 24 - 1) * 2 ^ 104"

definition double :: "real \<Rightarrow> fp" where
  "double = fp_round 53 (- 1074) DBL_MAX"

definition float32 :: "real \<Rightarrow> fp" where
  "float32 = fp_round 24 (- 149) FLT_MAX"


fun fp_mul :: "fp \<Rightarrow> fp \<Rightarrow> fp" where
  "fp_mul (Finite x) (Finite y) = double (x * y)"
| "fp_mul NaN b = NaN"
| "fp_mul a NaN = NaN"
| "fp_mul PInf PInf = PInf"
| "fp_mul NInf NInf = PInf"
| "fp_mul PInf NInf = NInf"
| "fp_mul NInf PInf = NInf"
| "fp_mul PInf (Finite y) = (if y > 0 then PInf else if y < 0 then NInf else NaN)"
| "fp_mul NInf (Finite y) = (if y > 0 then NInf else if y < 0 then PInf else NaN)"
| "fp_mul (Finite x) PInf = (if x > 0 then PInf else if x < 0 then NInf else NaN)"
| "fp_mul (Finite x) NInf = (if x > 0 then NInf else if x < 0 then PInf else NaN)"


text \<open>The order of floats; every comparison with a NaN is false.\<close>

fun fp_less :: "fp \<Rightarrow> fp \<Rightarrow> bool" where
  "fp_less (Finite x) (Finite y) = (x < y)"
| "fp_less NaN b = False"
| "fp_less a NaN = False"
| "fp_less a NInf = False"
| "fp_less NInf b = True"
| "fp_less PInf b = False"
| "fp_less (Finite x) PInf = True"





text \<open>
  Python's arithmetic on an \<open>int\<close> and a \<open>float\<close> converts the \<open>int\<close> to a double
  first, which raises when it is too large; its comparison of an \<open>int\<close> with a \<open>float\<close>
  is exact.
\<close>

definition int_to_double :: "int \<Rightarrow> error + real" where
  "int_to_double n = (case double (real_of_int n) of Finite x \<Rightarrow> Inr x | _ \<Rightarrow> Inl OverflowError)"

definition int_mul_float :: "int \<Rightarrow> real \<Rightarrow> error + fp" where
  "int_mul_float n y =
     (case int_to_double n of Inl e \<Rightarrow> Inl e | Inr x \<Rightarrow> Inr (fp_mul (Finite x) (Finite y)))"

definition int_greater :: "int \<Rightarrow> fp \<Rightarrow> bool" where
  "int_greater n v = fp_less v (Finite (real_of_int n))"


text \<open>
  The same quotient where it cannot overflow: the amounts of a swap are \<open>int256\<close>
  values, and the sums and quotients that \<open>compute_order_flow_metrics\<close> forms of them
  are far inside the range of a double.
\<close>

definition float_div :: "int \<Rightarrow> int \<Rightarrow> real" where
  "float_div a b = round_to 53 (- 1074) (real_of_int a / real_of_int b)"

text \<open>
  \<open>round(d, 3)\<close> on a double \<open>d\<close>: the nearest multiple of \<open>1 / 1000\<close>, a tie going to the
  even one, and the double nearest to that decimal.
\<close>

definition round3 :: "real \<Rightarrow> real" where
  "round3 d = round_to 53 (- 1074) (real_of_int (round_half_even (d * 1000)) / 1000)"

text \<open>The float literals \<open>0.1\<close> and \<open>0.2\<close>: the doubles nearest to a tenth and to a fifth.\<close>

definition float_0_1 :: real where
  "float_0_1 = 3602879701896397 / 2 ^ 55"

definition float_0_2 :: real where
  "float_0_2 = 3602879701896397 / 2 ^ 54"


section \<open>Order-flow analyzer (analysis/order_flow.py)\<close>

text \<open>
  A Python dictionary keeps its keys in insertion order; the dictionaries of the analyzer
  are association lists with distinct keys, read with \<open>map_of\<close> and written with
  \<open>AList.update\<close>, which replaces the value of a present key in place and appends a
  new key at the end. The products and quotients that decide the whale count and the
  window patterns, and the ratios of \<open>compute_order_flow_metrics\<close>, are computed in
  doubles, as Python does.
\<close>

record tx_entry =
  tx_datetime :: string
  tx_direction :: string
  tx_amount0 :: int
  tx_amount1 :: int
  tx_tick :: int

record wallet =
  buy_count :: int
  sell_count :: int
  buy_volume_token0 :: int
  sell_volume_token0 :: int
  buy_volume_token1 :: int
  sell_volume_token1 :: int
  net_token0 :: int
  net_token1 :: int
  first_seen :: "string option"
  last_seen :: "string option"
  txs :: "tx_entry list"

text \<open>The value the \<open>defaultdict\<close> of \<open>analyze_wallet_activity\<close> creates for a new key.\<close>

definition new_wallet :: wallet where
  "new_wallet = \<lparr>buy_count = 0, sell_count = 0, buy_volume_token0 = 0, sell_volume_token0 = 0,
     buy_volume_token1 = 0, sell_volume_token1 = 0, net_token0 = 0, net_token1 = 0,
     first_seen = None, last_seen = None, txs = []\<rparr>"

text \<open>The body of the loop of \<open>analyze_wallet_activity\<close>, on the wallet \<open>w\<close> of the swap.\<close>

definition record_swap :: "swap \<Rightarrow> wallet \<Rightarrow> wallet" where
  "record_swap s w =
     (let amt0 = amount0 s;
          amt1 = amount1 s;
          w1 = (if first_seen w = None then w\<lparr>first_seen := Some (datetime s)\<rparr> else w);
          w2 = w1\<lparr>last_seen := Some (datetime s)\<rparr>;
          w3 = (if amt0 < 0 then
                  w2\<lparr>buy_count := buy_count w2 + 1,
                     buy_volume_token0 := buy_volume_token0 w2 + \<bar>amt0\<bar>,
                     buy_volume_token1 := buy_volume_token1 w2 + \<bar>amt1\<bar>\<rparr>
                else
                  w2\<lparr>sell_count := sell_count w2 + 1,
                     sell_volume_token0 := sell_volume_token0 w2 + \<bar>amt0\<bar>,
                     sell_volume_token1 := sell_volume_token1 w2 + \<bar>amt1\<bar>\<rparr>);
          w4 = w3\<lparr>net_token0 := net_token0 w3 + (- amt0),
                  net_token1 := net_token1 w3 + (- amt1)\<rparr>
      in w4\<lparr>txs := txs w4 @ [\<lparr>tx_datetime = datetime s, tx_direction = direction s,
                                tx_amount0 = amt0, tx_amount1 = amt1, tx_tick = tick s\<rparr>]\<rparr>)"

definition wallet_of :: "(string \<times> wallet) list \<Rightarrow> string \<Rightarrow> wallet" where
  "wallet_of wallets a = (case map_of wallets a of Some w \<Rightarrow> w | None \<Rightarrow> new_wallet)"

fun wallet_loop :: "swap list \<Rightarrow> (string \<times> wallet) list \<Rightarrow> (string \<times> wallet) list" where
  "wallet_loop [] wallets = wallets"
| "wallet_loop (s # swaps) wallets =
     wallet_loop swaps
       (AList.update (recipient s) (record_swap s (wallet_of wallets (recipient s))) wallets)"

definition analyze_wallet_activity :: "swap list \<Rightarrow> (string \<times> wallet) list" where
  "analyze_wallet_activity swaps = wallet_loop swaps []"

record whale =
  address :: string
  total_volume :: int
  whale_net_token0 :: int
  whale_net_token1 :: int
  whale_buy_count :: int
  whale_sell_count :: int
  behavior :: string
  whale_first_seen :: "string option"
  whale_last_seen :: "string option"






text \<open>Python slices \<open>xs[i:]\<close> and \<open>xs[:j]\<close>, a negative index counting from the end.\<close>

definition slice_from :: "'a list \<Rightarrow> int \<Rightarrow> 'a list" where
  "slice_from xs i = drop (nat (if i < 0 then max 0 (int (length xs) + i) else i)) xs"

definition slice_to :: "'a list \<Rightarrow> int \<Rightarrow> 'a list" where
  "slice_to xs j = take (nat (if j < 0 then max 0 (int (length xs) + j) else j)) xs"

record flow_acc =
  acc_buy_volume :: int
  acc_sell_volume :: int
  acc_buy_count :: int
  acc_sell_count :: int
  hourly_flow :: "(string \<times> int \<times> int) list"

text \<open>\<open>hourly_flow[h]\<close> on the \<open>defaultdict\<close>: the pair \<open>(buy, sell)\<close>, zero for a new key.\<close>

definition flow_at :: "(string \<times> int \<times> int) list \<Rightarrow> string \<Rightarrow> int \<times> int" where
  "flow_at hf h = (case map_of hf h of Some v \<Rightarrow> v | None \<Rightarrow> (0, 0))"

definition flow_step :: "swap \<Rightarrow> flow_acc \<Rightarrow> flow_acc" where
  "flow_step s a =
     (let amt0 = amount0 s;
          hour = take 13 (datetime s);
          (b, sl) = flow_at (hourly_flow a) hour
      in if amt0 < 0 then
           a\<lparr>acc_buy_volume := acc_buy_volume a + \<bar>amt0\<bar>,
             acc_buy_count := acc_buy_count a + 1,
             hourly_flow := AList.update hour (b + \<bar>amt0\<bar>, sl) (hourly_flow a)\<rparr>
         else
           a\<lparr>acc_sell_volume := acc_sell_volume a + \<bar>amt0\<bar>,
             acc_sell_count := acc_sell_count a + 1,
             hourly_flow := AList.update hour (b, sl + \<bar>amt0\<bar>) (hourly_flow a)\<rparr>)"

fun flow_loop :: "swap list \<Rightarrow> flow_acc \<Rightarrow> flow_acc" where
  "flow_loop [] a = a"
| "flow_loop (s # swaps) a = flow_loop swaps (flow_step s a)"

text \<open>The counters and the empty \<open>defaultdict\<close> the loop starts from.\<close>

definition no_flow :: flow_acc where
  "no_flow = \<lparr>acc_buy_volume = 0, acc_sell_volume = 0, acc_buy_count = 0, acc_sell_count = 0,
     hourly_flow = []\<rparr>"

definition hour_net :: "(string \<times> int \<times> int) list \<Rightarrow> string \<Rightarrow> int" where
  "hour_net hf h = fst (flow_at hf h) - snd (flow_at hf h)"

definition recent_hours :: "string list \<Rightarrow> string list" where
  "recent_hours sorted_hours =
     (if length sorted_hours \<ge> 6 then slice_from sorted_hours (- 6)
      else slice_from sorted_hours ((- int (length sorted_hours)) div 2))"

definition older_hours :: "string list \<Rightarrow> string list" where
  "older_hours sorted_hours =
     (if length sorted_hours \<ge> 6 then slice_to sorted_hours (- 6)
      else slice_to sorted_hours (int (length sorted_hours) div 2))"

text \<open>The local variable \<open>trend_change\<close> of \<open>compute_order_flow_metrics\<close>, before rounding.\<close>

definition trend_change_of :: "(string \<times> int \<times> int) list \<Rightarrow> real" where
  "trend_change_of hf =
     (let sorted_hours = sort (map fst hf)
      in if length sorted_hours \<ge> 2 then
           (let recent_net = sum_list (map (hour_net hf) (recent_hours sorted_hours));
                older_net = sum_list (map (hour_net hf) (older_hours sorted_hours))
            in if older_net \<noteq> 0 then float_div (recent_net - older_net) \<bar>older_net\<bar>
               else if recent_net > 0 then 1 else if recent_net < 0 then - 1 else 0)
         else 0)"

record metrics =
  total_buy_volume :: int
  total_sell_volume :: int
  net_flow :: int
  metrics_buy_count :: int
  metrics_sell_count :: int
  buy_sell_ratio :: real
  order_flow_imbalance :: real
  trend_change :: real
  market_direction :: string
  trend_signal :: string

text \<open>
  \<open>compute_order_flow_metrics\<close>; the empty dictionary it returns on no swaps is \<open>None\<close>.
\<close>

definition compute_order_flow_metrics :: "swap list \<Rightarrow> metrics option" where
  "compute_order_flow_metrics swaps =
     (if swaps = [] then None
      else
        (let a = flow_loop swaps no_flow;
             total_buy = acc_buy_volume a;
             total_sell = acc_sell_volume a;
             net = total_buy - total_sell;
             ratio = (if total_sell > 0 then float_div total_buy total_sell
                      else if total_buy > 0 then 999 else 1);
             total_volume = total_buy + total_sell;
             ofi = (if total_volume > 0 then float_div (total_buy - total_sell) total_volume
                    else 0);
             tc = trend_change_of (hourly_flow a)
         in Some \<lparr>total_buy_volume = total_buy,
                  total_sell_volume = total_sell,
                  net_flow = net,
                  metrics_buy_count = acc_buy_count a,
                  metrics_sell_count = acc_sell_count a,
                  buy_sell_ratio = round3 ratio,
                  order_flow_imbalance = round3 ofi,
                  trend_change = round3 tc,
                  market_direction = (if ofi > float_0_1 then ''BULLISH''
                                      else if ofi < - float_0_1 then ''BEARISH'' else ''NEUTRAL''),
                  trend_signal = (if tc > float_0_2 then ''ACCELERATING''
                                  else if tc < - float_0_2 then ''DECELERATING'' else ''STABLE'')\<rparr>))"

subsection \<open>Accumulation and distribution patterns\<close>

text \<open>\<open>str(n)\<close> for an integer.\<close>

definition digit_char :: "nat \<Rightarrow> char" where
  "digit_char d = ''0123456789'' ! d"

function str_nat :: "nat \<Rightarrow> string" where
  "str_nat n = (if n < 10 then [digit_char n] else str_nat (n div 10) @ [digit_char (n mod 10)])"
  by pat_completeness auto
termination
  by (relation "measure (\<lambda>n. n)") auto

definition str_int :: "int \<Rightarrow> string" where
  "str_int i = (if i < 0 then CHR ''-'' # str_nat (nat (- i)) else str_nat (nat i))"

record window_acc =
  buys :: "int list"
  sells :: "int list"

definition window_at :: "(string \<times> window_acc) list \<Rightarrow> string \<Rightarrow> window_acc" where
  "window_at ws k = (case map_of ws k of Some v \<Rightarrow> v | None \<Rightarrow> \<lparr>buys = [], sells = []\<rparr>)"

text \<open>
  The grouping loop of \<open>detect_accumulation_distribution\<close>. The argument \<open>parse\<close> stands
  for \<open>datetime.fromisoformat\<close>: it gives \<open>dt.strftime('%Y-%m-%d')\<close> and \<open>dt.hour\<close>, or
  \<open>None\<close> when the library raises. \<open>//\<close> raises on a zero divisor and floors otherwise,
  as \<open>div\<close> on \<open>int\<close> does.
\<close>

fun window_loop ::
  "(string \<Rightarrow> (string \<times> int) option) \<Rightarrow> int \<Rightarrow> swap list \<Rightarrow> (string \<times> window_acc) list
     \<Rightarrow> error + (string \<times> window_acc) list" where
  "window_loop parse window_hours [] ws = Inr ws"
| "window_loop parse window_hours (s # swaps) ws =
     (case parse (datetime s) of
        None \<Rightarrow> Inl ValueError
      | Some (day, hour) \<Rightarrow>
          if window_hours = 0 then Inl ZeroDivisionError
          else
            (let window_key = day @ ''_'' @ str_int (hour div window_hours);
                 amt0 = amount0 s;
                 w = window_at ws window_key
             in if amt0 < 0 then
                  window_loop parse window_hours swaps
                    (AList.update window_key (w\<lparr>buys := buys w @ [\<bar>amt0\<bar>]\<rparr>) ws)
                else
                  window_loop parse window_hours swaps
                    (AList.update window_key (w\<lparr>sells := sells w @ [\<bar>amt0\<bar>]\<rparr>) ws)))"

text \<open>
  The \<open>if\<close>/\<open>elif\<close> chain that labels one window. \<open>sell_vol * 1.5\<close> and
  \<open>buy_vol * 1.5\<close> are products of an \<open>int\<close> and a float.
\<close>

definition classify :: "int \<Rightarrow> int \<Rightarrow> int \<Rightarrow> int \<Rightarrow> error + string" where
  "classify buy_vol sell_vol buy_cnt sell_cnt =
     (case int_mul_float sell_vol (3 / 2) of
        Inl e \<Rightarrow> Inl e
      | Inr a \<Rightarrow>
          if int_greater buy_vol a \<and> buy_cnt > sell_cnt then Inr ''ACCUMULATION''
          else
            (case int_mul_float buy_vol (3 / 2) of
               Inl e \<Rightarrow> Inl e
             | Inr b \<Rightarrow>
                 if int_greater sell_vol b \<and> sell_cnt > buy_cnt then Inr ''DISTRIBUTION''
                 else if buy_cnt > sell_cnt * 2 then Inr ''RETAIL_BUYING''
                 else if sell_cnt > buy_cnt * 2 then Inr ''RETAIL_SELLING''
                 else Inr ''MIXED''))"

record window_pattern =
  window :: string
  buy_volume :: int
  sell_volume :: int
  window_buy_count :: int
  window_sell_count :: int
  pattern :: string

definition analyze_window :: "string \<times> window_acc \<Rightarrow> error + window_pattern" where
  "analyze_window = (\<lambda>(k, data).
     (let buy_vol = sum_list (buys data);
          sell_vol = sum_list (sells data);
          buy_cnt = int (length (buys data));
          sell_cnt = int (length (sells data))
      in case classify buy_vol sell_vol buy_cnt sell_cnt of
           Inl e \<Rightarrow> Inl e
         | Inr label \<Rightarrow>
             Inr \<lparr>window = k, buy_volume = buy_vol, sell_volume = sell_vol,
                  window_buy_count = buy_cnt, window_sell_count = sell_cnt,
                  pattern = label\<rparr>))"

text \<open>The loop over the sorted windows, which ends at the first exception.\<close>

fun analyze_windows :: "(string \<times> window_acc) list \<Rightarrow> error + window_pattern list" where
  "analyze_windows [] = Inr []"
| "analyze_windows (w # ws) =
     (case analyze_window w of
        Inl e \<Rightarrow> Inl e
      | Inr p \<Rightarrow> (case analyze_windows ws of Inl e \<Rightarrow> Inl e | Inr ps \<Rightarrow> Inr (p # ps)))"

fun count_patterns :: "window_pattern list \<Rightarrow> (string \<times> int) list \<Rightarrow> (string \<times> int) list" where
  "count_patterns [] pc = pc"
| "count_patterns (p # ps) pc =
     count_patterns ps
       (AList.update (pattern p) ((case map_of pc (pattern p) of Some c \<Rightarrow> c | None \<Rightarrow> 0) + 1) pc)"

text \<open>\<open>max(items, key=lambda x: x[1])\<close>: the first item with the largest count.\<close>

fun max_item :: "string \<times> int \<Rightarrow> (string \<times> int) list \<Rightarrow> string \<times> int" where
  "max_item best [] = best"
| "max_item best (x # xs) = max_item (if snd x > snd best then x else best) xs"

record detection =
  windows :: "window_pattern list"
  pattern_summary :: "(string \<times> int) list"
  dominant_pattern :: string

definition detect_accumulation_distribution ::
  "(string \<Rightarrow> (string \<times> int) option) \<Rightarrow> swap list \<Rightarrow> int \<Rightarrow> error + detection option" where
  "detect_accumulation_distribution parse swaps window_hours =
     (if swaps = [] then Inr None
      else
        (case window_loop parse window_hours swaps [] of
           Inl e \<Rightarrow> Inl e
         | Inr ws \<Rightarrow>
            (case analyze_windows (sort_key fst ws) of
               Inl e \<Rightarrow> Inl e
             | Inr patterns \<Rightarrow>
                (let pattern_counts = count_patterns patterns [];
                     dominant = (case pattern_counts of
                                   [] \<Rightarrow> ''UNKNOWN''
                                 | x # xs \<Rightarrow> fst (max_item x xs))
                 in Inr (Some \<lparr>windows = patterns, pattern_summary = pattern_counts,
                               dominant_pattern = dominant\<rparr>)))))"

section \<open>State normalizer (state_normalizer.py)\<close>

text \<open>
  The arrays are one-dimensional. \<open>normalize_by_range\<close> is modelled in floating point:
  its argument is a \<open>float64\<close> array, given as the list of the reals its entries stand
  for, and its result a \<open>float32\<close> array. The running statistics are modelled in exact
  arithmetic on lists of \<open>real\<close>. The dictionary \<open>feature_ranges\<close>, which no method
  reads, is left out of the object.
\<close>

record normalizer =
  state_dim :: int
  clip_range :: real
  mean :: "real list"
  var :: "real list"
  count :: int

definition init :: "int \<Rightarrow> real \<Rightarrow> error + normalizer" where
  "init n c =
     (if n < 0 then Inl ValueError
      else Inr \<lparr>state_dim = n, clip_range = c,
                mean = replicate (nat n) 0, var = replicate (nat n) 1, count = 0\<rparr>)"


text \<open>\<open>np.clip(x, -c, c)\<close>, which is \<open>minimum(maximum(x, -c), c)\<close>, on exact reals.\<close>

definition clip :: "real \<Rightarrow> real \<Rightarrow> real" where
  "clip c x = min (max x (- c)) c"






text \<open>
  numpy's broadcasting of a binary operation on two one-dimensional arrays: equal
  lengths, or one of them of length one; anything else raises. An augmented assignment
  \<open>a += b\<close> also raises when the result has not the shape of \<open>a\<close>.
\<close>

definition broadcast2 :: "(real \<Rightarrow> real \<Rightarrow> real) \<Rightarrow> real list \<Rightarrow> real list \<Rightarrow> real list option" where
  "broadcast2 f xs ys =
     (if length xs = length ys then Some (map2 f xs ys)
      else if length xs = 1 then Some (map (f (hd xs)) ys)
      else if length ys = 1 then Some (map (\<lambda>x. f x (hd ys)) xs)
      else None)"

definition inplace2 :: "(real \<Rightarrow> real \<Rightarrow> real) \<Rightarrow> real list \<Rightarrow> real list \<Rightarrow> real list option" where
  "inplace2 f xs ys =
     (case broadcast2 f xs ys of
        Some zs \<Rightarrow> if length zs = length xs then Some zs else None
      | None \<Rightarrow> None)"

text \<open>
  \<open>update\<close> mutates the object step by step, so an exception leaves the steps before it
  in place: the result is the exception, if any, and the object as the call leaves it.
  The count it divides by is at least one for an object that comes from the constructor.
\<close>

definition update :: "normalizer \<Rightarrow> real list \<Rightarrow> error option \<times> normalizer" where
  "update nz state =
     (let nz1 = nz\<lparr>count := count nz + 1\<rparr>
      in case broadcast2 (-) state (mean nz1) of
           None \<Rightarrow> (Some ValueError, nz1)
         | Some delta \<Rightarrow>
            (case inplace2 (+) (mean nz1) (map (\<lambda>d. d / real_of_int (count nz1)) delta) of
               None \<Rightarrow> (Some ValueError, nz1)
             | Some mean' \<Rightarrow>
                (let nz2 = nz1\<lparr>mean := mean'\<rparr>
                 in case broadcast2 (-) state (mean nz2) of
                      None \<Rightarrow> (Some ValueError, nz2)
                    | Some delta2 \<Rightarrow>
                       (case broadcast2 (*) delta delta2 of
                          None \<Rightarrow> (Some ValueError, nz2)
                        | Some dd \<Rightarrow>
                           (case inplace2 (+) (var nz2) dd of
                              None \<Rightarrow> (Some ValueError, nz2)
                            | Some var' \<Rightarrow> (None, nz2\<lparr>var := var'\<rparr>))))))"

fun update_all :: "normalizer \<Rightarrow> real list list \<Rightarrow> error option \<times> normalizer" where
  "update_all nz [] = (None, nz)"
| "update_all nz (x # xs) =
     (case update nz x of
        (None, nz') \<Rightarrow> update_all nz' xs
      | (Some e, nz') \<Rightarrow> (Some e, nz'))"

text \<open>The array \<open>std\<close> of \<open>normalize_running\<close>.\<close>

definition running_std :: "normalizer \<Rightarrow> real list" where
  "running_std nz = map (\<lambda>v. sqrt (v / real_of_int (count nz - 1) + 1 / 10 ^ 8)) (var nz)"

definition normalize_running :: "normalizer \<Rightarrow> real list \<Rightarrow> error + real list" where
  "normalize_running nz state =
     (if count nz < 2 then Inr state
      else
        (case broadcast2 (-) state (mean nz) of
           None \<Rightarrow> Inl ValueError
         | Some d \<Rightarrow>
            (case broadcast2 (/) d (running_std nz) of
               None \<Rightarrow> Inl ValueError
             | Some normalized \<Rightarrow> Inr (map (clip (clip_range nz)) normalized))))"

subsection \<open>Saving and loading\<close>

text \<open>
  \<open>json.dump\<close> followed by \<open>json.load\<close> gives back the value that was written; a file
  is modelled by the JSON value it holds.
\<close>

datatype json = JInt int | JFloat real | JStr string | JList "json list" | JObject "(string \<times> json) list"

type_synonym files = "string \<rightharpoonup> json"

definition save :: "normalizer \<Rightarrow> string \<Rightarrow> files \<Rightarrow> files" where
  "save nz path fs =
     (let data = JObject [(''state_dim'', JInt (state_dim nz)),
                          (''clip_range'', JFloat (clip_range nz)),
                          (''mean'', JList (map JFloat (mean nz))),
                          (''var'', JList (map JFloat (var nz))),
                          (''count'', JInt (count nz))]
      in fs(path \<mapsto> data))"

text \<open>What the typed fields of the object accept from a JSON value.\<close>

fun json_int :: "json \<Rightarrow> int option" where
  "json_int (JInt i) = Some i"
| "json_int _ = None"

fun json_number :: "json \<Rightarrow> real option" where
  "json_number (JFloat x) = Some x"
| "json_number (JInt i) = Some (real_of_int i)"
| "json_number _ = None"

fun json_numbers :: "json list \<Rightarrow> real list option" where
  "json_numbers [] = Some []"
| "json_numbers (j # js) =
     (case json_number j of
        None \<Rightarrow> None
      | Some x \<Rightarrow> (case json_numbers js of None \<Rightarrow> None | Some xs \<Rightarrow> Some (x # xs)))"

fun json_array :: "json \<Rightarrow> real list option" where
  "json_array (JList js) = json_numbers js"
| "json_array _ = None"

text \<open>
  \<open>load\<close> assigns the fields one after the other; like \<open>update\<close>, it returns the
  exception, if any, and the object as it leaves it.
\<close>

definition load :: "normalizer \<Rightarrow> string \<Rightarrow> files \<Rightarrow> error option \<times> normalizer" where
  "load nz path fs =
     (case fs path of
        None \<Rightarrow> (Some FileNotFoundError, nz)
      | Some (JObject data) \<Rightarrow>
         (case map_of data ''state_dim'' of None \<Rightarrow> (Some KeyError, nz) | Some j1 \<Rightarrow>
          (case json_int j1 of None \<Rightarrow> (Some TypeError, nz) | Some sd \<Rightarrow>
           (let nz1 = nz\<lparr>state_dim := sd\<rparr> in
            case map_of data ''clip_range'' of None \<Rightarrow> (Some KeyError, nz1) | Some j2 \<Rightarrow>
            (case json_number j2 of None \<Rightarrow> (Some TypeError, nz1) | Some c \<Rightarrow>
             (let nz2 = nz1\<lparr>clip_range := c\<rparr> in
              case map_of data ''mean'' of None \<Rightarrow> (Some KeyError, nz2) | Some j3 \<Rightarrow>
              (case json_array j3 of None \<Rightarrow> (Some TypeError, nz2) | Some m \<Rightarrow>
               (let nz3 = nz2\<lparr>mean := m\<rparr> in
                case map_of data ''var'' of None \<Rightarrow> (Some KeyError, nz3) | Some j4 \<Rightarrow>
                (case json_array j4 of None \<Rightarrow> (Some TypeError, nz3) | Some v \<Rightarrow>
                 (let nz4 = nz3\<lparr>var := v\<rparr> in
                  case map_of data ''count'' of None \<Rightarrow> (Some KeyError, nz4) | Some j5 \<Rightarrow>
                  (case json_int j5 of None \<Rightarrow> (Some TypeError, nz4)
                   | Some n \<Rightarrow> (None, nz4\<lparr>count := n\<rparr>)))))))))))
      | Some _ \<Rightarrow> (Some TypeError, nz))"

section \<open>Example inputs\<close>

text \<open>
  A ledger at head 100 whose log query fails for the sub-range starting at block 40 and
  answers the others; block 70 holds one swap. The pool \<open>poolA\<close> was last scanned at 39.
\<close>

definition ex_args :: "int \<Rightarrow> swap_args" where
  "ex_args a0 = \<lparr>arg_sender = ''router'', arg_recipient = ''alice'', arg_amount0 = a0,
     arg_amount1 = 7, arg_sqrtPriceX96 = 1, arg_liquidity = 1, arg_tick = 0\<rparr>"

definition ex_log :: "int \<Rightarrow> int \<Rightarrow> raw_log" where
  "ex_log b a0 = \<lparr>blockNumber = b, transactionHash = ''0xab'', logIndex = 0,
     log_args = Some (ex_args a0)\<rparr>"

definition ex_w3 :: web3 where
  "ex_w3 = \<lparr>block_number = Some 100,
            to_checksum_address = (\<lambda>a. Some a),
            get_logs = (\<lambda>a s e. if s = 40 then None
                                 else if s \<le> 70 \<and> 70 \<le> e then Some [ex_log 70 (- 5)]
                                 else Some []),
            get_block_timestamp = (\<lambda>b. Some (1700000000 + b)),
            utc_isoformat = (\<lambda>t. Some ''2023-11-14T22:13:20'')\<rparr>"

definition ex_store :: store where
  "ex_store = \<lparr>last_block_file = Some [''poolA'' \<mapsto> 39], daily_files = (\<lambda>k. [])\<rparr>"

definition ex_store_after :: store where
  "ex_store_after =
     save_last_block
       (ex_store\<lparr>daily_files := (daily_files ex_store)((''poolA'', ''2023-11-14'') :=
          map (\<lambda>s. s\<lparr>pool := ''0xpool'', pool_name := ''poolA''\<rparr>)
            (decode_all ex_w3 [ex_log 70 (- 5)]))\<rparr>) ''poolA'' 100"


text \<open>Swaps as the analyzer loads them, one per hour unless said otherwise.\<close>

definition ex_swap :: "string \<Rightarrow> string \<Rightarrow> int \<Rightarrow> int \<Rightarrow> swap" where
  "ex_swap dt rcpt a0 a1 =
     \<lparr>block = 1, tx_hash = ''0xab'', log_index = 0, timestamp = 0, datetime = dt,
      sender = ''router'', recipient = rcpt, amount0 = a0, amount1 = a1, sqrt_price_x96 = 1,
      liquidity = 1, tick = 0, direction = direction_of a0, pool = ''0xpool'',
      pool_name = ''poolA''\<rparr>"

definition ex_swaps8 :: "swap list" where
  "ex_swaps8 =
     [ex_swap ''2024-01-01T00:10:00'' ''alice'' (- 1) 1,
      ex_swap ''2024-01-01T01:10:00'' ''alice'' (- 1) 1,
      ex_swap ''2024-01-01T02:10:00'' ''alice'' (- 1) 1,
      ex_swap ''2024-01-01T03:10:00'' ''alice'' (- 1) 1,
      ex_swap ''2024-01-01T04:10:00'' ''alice'' (- 2) 2,
      ex_swap ''2024-01-01T05:10:00'' ''alice'' (- 2) 2,
      ex_swap ''2024-01-01T06:10:00'' ''alice'' (- 2) 2,
      ex_swap ''2024-01-01T07:10:00'' ''alice'' (- 2) 2]"

text \<open>
  The windows as the claim words them: the last six buckets, or the more recent half
  when fewer than twelve buckets exist.
\<close>

definition claimed_recent_hours :: "string list \<Rightarrow> string list" where
  "claimed_recent_hours sorted_hours =
     (if length sorted_hours \<ge> 12 then slice_from sorted_hours (- 6)
      else slice_from sorted_hours ((- int (length sorted_hours)) div 2))"

definition claimed_older_hours :: "string list \<Rightarrow> string list" where
  "claimed_older_hours sorted_hours =
     (if length sorted_hours \<ge> 12 then slice_to sorted_hours (- 6)
      else slice_to sorted_hours (int (length sorted_hours) div 2))"

definition claimed_trend_change :: "(string \<times> int \<times> int) list \<Rightarrow> real" where
  "claimed_trend_change hf =
     (let sorted_hours = sort (map fst hf)
      in if length sorted_hours \<ge> 2 then
           (let recent_net = sum_list (map (hour_net hf) (claimed_recent_hours sorted_hours));
                older_net = sum_list (map (hour_net hf) (claimed_older_hours sorted_hours))
            in if older_net \<noteq> 0 then real_of_int (recent_net - older_net) / real_of_int \<bar>older_net\<bar>
               else if recent_net > 0 then 1 else if recent_net < 0 then - 1 else 0)
         else 0)"

text \<open>
  Five hourly buys, and a swap whose \<open>amount0\<close> is zero while its \<open>amount1\<close> is not,
  in a sixth hour.
\<close>

definition ex_swaps5 :: "swap list" where
  "ex_swaps5 =
     [ex_swap ''2024-01-01T00:10:00'' ''alice'' (- 2) 2,
      ex_swap ''2024-01-01T01:10:00'' ''alice'' (- 2) 2,
      ex_swap ''2024-01-01T02:10:00'' ''alice'' (- 1) 1,
      ex_swap ''2024-01-01T03:10:00'' ''alice'' (- 1) 1,
      ex_swap ''2024-01-01T04:10:00'' ''alice'' (- 1) 1]"

definition ex_zero_swap :: swap where
  "ex_zero_swap = ex_swap ''2024-01-01T05:10:00'' ''alice'' 0 7"

text \<open>
  A reader for the shape \<open>YYYY-MM-DDTHH:MM:SS\<close> that the collector writes, and one day
  with five buys of 30 and three sells of 40, 30 and 30.
\<close>

definition digit_of :: "char \<Rightarrow> int" where
  "digit_of c = int (of_char c) - 48"

definition ex_parse :: "string \<Rightarrow> (string \<times> int) option" where
  "ex_parse s =
     (if length s \<ge> 13 then Some (take 10 s, 10 * digit_of (s ! 11) + digit_of (s ! 12))
      else None)"

definition ex_day :: "int \<Rightarrow> swap list" where
  "ex_day first_buy =
     [ex_swap ''2024-01-01T00:10:00'' ''alice'' (- first_buy) 1,
      ex_swap ''2024-01-01T03:10:00'' ''bob'' 40 (- 1),
      ex_swap ''2024-01-01T05:10:00'' ''alice'' (- 30) 1,
      ex_swap ''2024-01-01T09:10:00'' ''carol'' (- 30) 1,
      ex_swap ''2024-01-01T12:10:00'' ''bob'' 30 (- 1),
      ex_swap ''2024-01-01T15:10:00'' ''alice'' (- 30) 1,
      ex_swap ''2024-01-01T19:10:00'' ''dave'' 30 (- 1),
      ex_swap ''2024-01-01T23:10:00'' ''carol'' (- 30) 1]"

definition ex_detection :: "string \<Rightarrow> int \<Rightarrow> detection" where
  "ex_detection label buy_vol =
     \<lparr>windows = [\<lparr>window = ''2024-01-01_0'', buy_volume = buy_vol, sell_volume = 100,
                   window_buy_count = 5, window_sell_count = 3, pattern = label\<rparr>],
      pattern_summary = [(label, 1)],
      dominant_pattern = label\<rparr>"



text \<open>A normalizer of one feature, and the same after two runs of \<open>update\<close>.\<close>

definition ex_fresh :: normalizer where
  "ex_fresh = \<lparr>state_dim = 1, clip_range = 10, mean = [0], var = [1], count = 0\<rparr>"

definition ex_saved :: normalizer where
  "ex_saved = \<lparr>state_dim = 1, clip_range = 10, mean = [2], var = [3], count = 2\<rparr>"

text \<open>
  The chain of tests as the claim words it, on the exact products, and three swaps of
  one window whose buys add up to 1500000000000000001 and whose sell is
  1000000000000000001.
\<close>

definition claimed_classify :: "int \<Rightarrow> int \<Rightarrow> int \<Rightarrow> int \<Rightarrow> string" where
  "claimed_classify buy_vol sell_vol buy_cnt sell_cnt =
     (if real_of_int buy_vol > 3 / 2 * real_of_int sell_vol \<and> buy_cnt > sell_cnt
      then ''ACCUMULATION''
      else if real_of_int sell_vol > 3 / 2 * real_of_int buy_vol \<and> sell_cnt > buy_cnt
      then ''DISTRIBUTION''
      else if buy_cnt > 2 * sell_cnt then ''RETAIL_BUYING''
      else if sell_cnt > 2 * buy_cnt then ''RETAIL_SELLING''
      else ''MIXED'')"

definition ex_wei_day :: "swap list" where
  "ex_wei_day =
     [ex_swap ''2024-01-01T00:10:00'' ''alice'' (- 1500000000000000000) 1,
      ex_swap ''2024-01-01T03:10:00'' ''bob'' 1000000000000000001 (- 1),
      ex_swap ''2024-01-01T05:10:00'' ''alice'' (- 1) 1]"

definition ex_wei_detection :: detection where
  "ex_wei_detection =
     \<lparr>windows = [\<lparr>window = ''2024-01-01_0'', buy_volume = 1500000000000000001,
                   sell_volume = 1000000000000000001, window_buy_count = 2,
                   window_sell_count = 1, pattern = ''ACCUMULATION''\<rparr>],
      pattern_summary = [(''ACCUMULATION'', 1)],
      dominant_pattern = ''ACCUMULATION''\<rparr>"







section \<open>Properties of the rounding\<close>

lemma round_half_even_of_int [simp]: "round_half_even (real_of_int z) = z"
  by (simp add: round_half_even_def)

lemma round_half_even_bounds: "\<lfloor>x\<rfloor> \<le> round_half_even x \<and> round_half_even x \<le> \<lceil>x\<rceil>"
proof -
  have "\<lfloor>x\<rfloor> + 1 \<le> \<lceil>x\<rceil>" if "x - real_of_int \<lfloor>x\<rfloor> \<ge> 1 / 2"
  proof -
    from that have "real_of_int \<lfloor>x\<rfloor> < x" by linarith
    then show ?thesis using le_of_int_ceiling [of x] by linarith
  qed
  then show ?thesis
    by (auto simp: round_half_even_def Let_def not_less)
qed

lemma round_half_even_ge: "real_of_int z \<le> x \<Longrightarrow> z \<le> round_half_even x"
  using round_half_even_bounds [of x] by (meson le_floor_iff order_trans)

lemma round_half_even_le: "x \<le> real_of_int z \<Longrightarrow> round_half_even x \<le> z"
  using round_half_even_bounds [of x] by (meson ceiling_le_iff order_trans)


lemma abs_less_ulp_exponent: "\<bar>x\<bar> < 2 powi (ulp_exponent p emin x + int p)"
proof -
  let ?Y = "\<lfloor>\<bar>x\<bar> * 2 powi (- emin)\<rfloor>"
  have "?Y < 2 ^ nat (bitlen ?Y)"
  proof (cases "?Y > 0")
    case True
    then show ?thesis using bitlen_bounds [of ?Y] by simp
  next
    case False
    then have "?Y \<le> 0" by simp
    also have "(0::int) < 2 ^ nat (bitlen ?Y)" by simp
    finally show ?thesis .
  qed
  then have "\<bar>x\<bar> * 2 powi (- emin) < 2 ^ nat (bitlen ?Y)"
    by (metis floor_less_iff of_int_numeral of_int_power)
  also have "\<dots> = 2 powi (bitlen ?Y)"
    by (simp add: power_int_nonneg_exp bitlen_nonneg)
  finally have "\<bar>x\<bar> * 2 powi (- emin) * 2 powi emin < 2 powi (bitlen ?Y) * 2 powi emin"
    by (simp add: zero_less_power_int)
  then have "\<bar>x\<bar> < 2 powi (bitlen ?Y + emin)"
    by (simp add: power_int_add power_int_minus field_simps)
  also have "\<dots> \<le> 2 powi (ulp_exponent p emin x + int p)"
    by (rule power_int_increasing) (simp_all add: ulp_exponent_def)
  finally show ?thesis .
qed

lemma ulp_exponent_le:
  assumes "x = real_of_int m * 2 powi k" and "\<bar>m\<bar> < 2 ^ p" and "emin \<le> k"
  shows "ulp_exponent p emin x \<le> k"
proof -
  let ?Y = "\<lfloor>\<bar>x\<bar> * 2 powi (- emin)\<rfloor>"
  have "\<bar>x\<bar> * 2 powi (- emin) = real_of_int \<bar>m\<bar> * 2 powi (k - emin)"
    using assms(1) by (simp add: abs_mult power_int_diff power_int_minus field_simps)
  also have "\<dots> = real_of_int (\<bar>m\<bar> * 2 ^ nat (k - emin))"
    using assms(3) by (simp add: power_int_nonneg_exp)
  finally have Y: "?Y = \<bar>m\<bar> * 2 ^ nat (k - emin)" by (simp only: floor_of_int)
  have "\<bar>m\<bar> * 2 ^ nat (k - emin) < 2 ^ p * 2 ^ nat (k - emin)"
    using assms(2) by simp
  also have "\<dots> = 2 ^ nat (int p + k - emin)"
  proof -
    have "nat (int p + k - emin) = p + nat (k - emin)" using assms(3) by linarith
    then show ?thesis by (simp add: power_add)
  qed
  finally have "bitlen ?Y \<le> int p + k - emin"
    unfolding Y by (simp add: bitlen_le_iff_power) (use assms(3) in linarith)
  with assms(3) show ?thesis by (simp add: ulp_exponent_def)
qed

lemma ulp_exponent_lower:
  assumes "emin < ulp_exponent p emin x"
  shows "2 powi (ulp_exponent p emin x + int p - 1) \<le> \<bar>x\<bar>"
proof -
  let ?Y = "\<lfloor>\<bar>x\<bar> * 2 powi (- emin)\<rfloor>"
  from assms have e: "ulp_exponent p emin x = bitlen ?Y + emin - int p"
    and b: "int p < bitlen ?Y"
    by (simp_all add: ulp_exponent_def max_def split: if_splits)
  from b have "0 < bitlen ?Y" by linarith
  then have pos: "0 < ?Y" using bitlen_eq_zero_iff [of ?Y] by linarith
  then have "2 ^ nat (bitlen ?Y - 1) \<le> ?Y" using bitlen_bounds [of ?Y] by simp
  then have "real_of_int (2 ^ nat (bitlen ?Y - 1)) \<le> \<bar>x\<bar> * 2 powi (- emin)"
    by (meson le_floor_iff)
  then have "2 powi (bitlen ?Y - 1) \<le> \<bar>x\<bar> * 2 powi (- emin)"
    using \<open>0 < bitlen ?Y\<close> by (simp add: power_int_nonneg_exp)
  then have "2 powi (bitlen ?Y - 1) * 2 powi emin \<le> \<bar>x\<bar> * 2 powi (- emin) * 2 powi emin"
    by (simp add: zero_less_power_int)
  moreover have "(2::real) powi (bitlen ?Y - 1) * 2 powi emin = 2 powi (bitlen ?Y - 1 + emin)"
    by (simp add: power_int_add)
  moreover have "\<bar>x\<bar> * 2 powi (- emin) * 2 powi emin = \<bar>x\<bar>"
    by (simp add: power_int_minus)
  ultimately have "2 powi (bitlen ?Y - 1 + emin) \<le> \<bar>x\<bar>" by simp
  moreover have "bitlen ?Y - 1 + emin = ulp_exponent p emin x + int p - 1"
    unfolding e by simp
  ultimately show ?thesis by simp
qed

lemma ulp_exponent_eqI:
  assumes "emin \<le> e" and "2 powi (e + int p - 1) \<le> \<bar>x\<bar>" and "\<bar>x\<bar> < 2 powi (e + int p)"
  shows "ulp_exponent p emin x = e"
proof (rule antisym)
  show "ulp_exponent p emin x \<le> e"
  proof (rule ccontr)
    assume "\<not> ulp_exponent p emin x \<le> e"
    then have gt: "e < ulp_exponent p emin x" by simp
    with assms(1) have "emin < ulp_exponent p emin x" by simp
    from ulp_exponent_lower [OF this] have "2 powi (ulp_exponent p emin x + int p - 1) \<le> \<bar>x\<bar>" .
    moreover have "(2::real) powi (e + int p) \<le> 2 powi (ulp_exponent p emin x + int p - 1)"
      by (rule power_int_increasing) (use gt in simp_all)
    ultimately show False using assms(3) by linarith
  qed
  show "e \<le> ulp_exponent p emin x"
  proof (rule ccontr)
    assume "\<not> e \<le> ulp_exponent p emin x"
    then have lt: "ulp_exponent p emin x < e" by simp
    have "\<bar>x\<bar> < 2 powi (ulp_exponent p emin x + int p)" by (rule abs_less_ulp_exponent)
    also have "(2::real) powi (ulp_exponent p emin x + int p) \<le> 2 powi (e + int p - 1)"
      by (rule power_int_increasing) (use lt in simp_all)
    finally show False using assms(2) by linarith
  qed
qed

lemma round_to_exact_strict:
  assumes "x = real_of_int m * 2 powi k" and "\<bar>m\<bar> < 2 ^ p" and "emin \<le> k"
  shows "round_to p emin x = x"
proof -
  let ?e = "ulp_exponent p emin x"
  have le: "?e \<le> k" using assms by (rule ulp_exponent_le)
  have "x / 2 powi ?e = real_of_int m * 2 powi (k - ?e)"
    using assms(1) by (simp add: power_int_diff)
  also have "\<dots> = real_of_int (m * 2 ^ nat (k - ?e))"
    using le by (simp add: power_int_nonneg_exp)
  finally have "round_half_even (x / 2 powi ?e) = m * 2 ^ nat (k - ?e)"
    by (simp only: round_half_even_of_int)
  then have "round_to p emin x = real_of_int (m * 2 ^ nat (k - ?e)) * 2 powi ?e"
    by (simp add: round_to_def Let_def)
  also have "\<dots> = real_of_int m * (2 powi (k - ?e) * 2 powi ?e)"
    using le by (simp add: power_int_nonneg_exp)
  also have "2 powi (k - ?e) * 2 powi ?e = (2::real) powi k"
    by (simp flip: power_int_add)
  finally show ?thesis using assms(1) by simp
qed

lemma round_to_exact:
  assumes "x = real_of_int m * 2 powi k" and "\<bar>m\<bar> \<le> 2 ^ p" and "emin \<le> k" and "0 < p"
  shows "round_to p emin x = x"
proof (cases "\<bar>m\<bar> < 2 ^ p")
  case True
  with assms show ?thesis by (intro round_to_exact_strict [of x m k]) simp_all
next
  case False
  with assms(2) have m: "\<bar>m\<bar> = 2 ^ p" by simp
  obtain q where p: "p = Suc q" using assms(4) by (cases p) auto
  define m' where "m' = sgn m * 2 ^ q"
  have m': "m = m' * 2" "\<bar>m'\<bar> < 2 ^ p"
    using m by (auto simp: m'_def p abs_mult abs_if sgn_if split: if_splits)
  have "x = real_of_int m' * 2 powi (k + 1)"
    using assms(1) m'(1) by (simp add: power_int_add)
  then show ?thesis
    using m'(2) assms(3) by (intro round_to_exact_strict [of x m' "k + 1"]) simp_all
qed



lemma round_to_eval:
  assumes "emin \<le> e" and "2 powi (e + int p - 1) \<le> \<bar>x\<bar>" and "\<bar>x\<bar> < 2 powi (e + int p)"
  shows "round_to p emin x = real_of_int (round_half_even (x / 2 powi e)) * 2 powi e"
  using ulp_exponent_eqI [OF assms] by (simp add: round_to_def)

lemma round_to_zero [simp]: "round_to p emin 0 = 0"
  by (simp add: round_to_def round_half_even_def)

lemma fp_round_exact:
  assumes "x = real_of_int m * 2 powi k" and "\<bar>m\<bar> \<le> 2 ^ p" and "emin \<le> k" and "0 < p"
    and "\<bar>x\<bar> \<le> fmax"
  shows "fp_round p emin fmax x = Finite x"
proof -
  have "round_to p emin x = x" using assms(1-4) by (rule round_to_exact)
  moreover have "\<not> x > fmax" "\<not> x < - fmax" using assms(5) by linarith+
  ultimately show ?thesis by (simp add: fp_round_def Let_def)
qed

lemma double_exact:
  assumes "x = real_of_int m * 2 powi k" and "\<bar>m\<bar> \<le> 2 ^ 53" and "- 1074 \<le> k"
    and "\<bar>x\<bar> \<le> DBL_MAX"
  shows "double x = Finite x"
  unfolding double_def using assms by (intro fp_round_exact [of x m k]) simp_all

lemma float32_exact:
  assumes "x = real_of_int m * 2 powi k" and "\<bar>m\<bar> \<le> 2 ^ 24" and "- 149 \<le> k"
    and "\<bar>x\<bar> \<le> FLT_MAX"
  shows "float32 x = Finite x"
  unfolding float32_def using assms by (intro fp_round_exact [of x m k]) simp_all

lemma two_53_le_DBL_MAX: "(2::real) ^ 53 \<le> DBL_MAX"
  by (simp add: DBL_MAX_def)

lemma double_of_int:
  assumes "\<bar>n\<bar> \<le> 2 ^ 53"
  shows "double (real_of_int n) = Finite (real_of_int n)"
proof (rule double_exact [of _ n 0])
  have "\<bar>real_of_int n\<bar> \<le> 2 ^ 53"
    using assms by (metis of_int_abs of_int_le_numeral_power_cancel_iff)
  then show "\<bar>real_of_int n\<bar> \<le> DBL_MAX" using two_53_le_DBL_MAX by linarith
qed (use assms in simp_all)

lemma int_mul_float_1_5:
  assumes "\<bar>v\<bar> \<le> 2 ^ 51"
  shows "int_mul_float v (3 / 2) = Inr (Finite (real_of_int v * (3 / 2)))"
proof -
  have "(2::int) ^ 51 \<le> 2 ^ 53" by simp
  with assms have "\<bar>v\<bar> \<le> 2 ^ 53" by linarith
  then have c: "double (real_of_int v) = Finite (real_of_int v)" by (rule double_of_int)
  have "double (real_of_int v * (3 / 2)) = Finite (real_of_int v * (3 / 2))"
  proof (rule double_exact [of _ "3 * v" "- 1"])
    have "\<bar>real_of_int v\<bar> \<le> 2 ^ 51"
      using assms by (metis of_int_abs of_int_le_numeral_power_cancel_iff)
    then have "\<bar>real_of_int v * (3 / 2)\<bar> \<le> 2 ^ 53" by (simp add: abs_mult)
    then show "\<bar>real_of_int v * (3 / 2)\<bar> \<le> DBL_MAX" using two_53_le_DBL_MAX by linarith
    show "\<bar>3 * v\<bar> \<le> 2 ^ 53" using assms by (simp add: abs_mult)
  qed simp_all
  with c show ?thesis by (simp add: int_mul_float_def int_to_double_def)
qed




lemma round_to_nonneg: "0 \<le> x \<Longrightarrow> 0 \<le> round_to p emin x"
proof -
  assume "0 \<le> x"
  then have "real_of_int 0 \<le> x / 2 powi ulp_exponent p emin x"
    by (simp add: zero_le_divide_iff zero_less_power_int)
  then have "0 \<le> round_half_even (x / 2 powi ulp_exponent p emin x)"
    by (rule round_half_even_ge)
  then show ?thesis by (simp add: round_to_def Let_def zero_le_mult_iff zero_less_power_int)
qed

lemma round_to_nonpos: "x \<le> 0 \<Longrightarrow> round_to p emin x \<le> 0"
proof -
  assume "x \<le> 0"
  then have "x / 2 powi ulp_exponent p emin x \<le> real_of_int 0"
    by (simp add: divide_le_0_iff zero_less_power_int)
  then have "round_half_even (x / 2 powi ulp_exponent p emin x) \<le> 0"
    by (rule round_half_even_le)
  then show ?thesis by (simp add: round_to_def Let_def mult_le_0_iff zero_less_power_int)
qed


lemma double_0 [simp]: "double 0 = Finite 0"
  by (simp add: double_def fp_round_def DBL_MAX_def)

lemma float32_0 [simp]: "float32 0 = Finite 0"
  by (simp add: float32_def fp_round_def FLT_MAX_def)

lemma double_small_ints [simp]:
  "double 1 = Finite 1" "double 2 = Finite 2" "double (- 1) = Finite (- 1)"
  using double_of_int [of 1] double_of_int [of 2] double_of_int [of "- 1"] by simp_all

lemma float32_ones [simp]: "float32 1 = Finite 1" "float32 (- 1) = Finite (- 1)"
  using float32_exact [of 1 1 0] float32_exact [of "- 1" "- 1" 0] by (simp_all add: FLT_MAX_def)


section \<open>Properties of the collector\<close>

declare fetch_batches.simps [simp del]

lemma get_last_block_save:
  "get_last_block (save_last_block st name b) p = (if p = name then b else get_last_block st p)"
  by (simp add: get_last_block_def save_last_block_def Let_def split: option.splits)

lemma get_last_block_daily:
  "get_last_block (st\<lparr>daily_files := f\<rparr>) p = get_last_block st p"
  by (simp add: get_last_block_def)

lemma collect_pool_cases:
  assumes "collect_pool w3 today st name pool_address lookback_blocks = Inr (n, st')"
  obtains (noop) head where "block_number w3 = Some head" "n = 0" "st' = st"
    "(if get_last_block st name = 0 then int head - lookback_blocks
      else get_last_block st name + 1) \<ge> int head"
  | (scan) head where "block_number w3 = Some head"
    "(if get_last_block st name = 0 then int head - lookback_blocks
      else get_last_block st name + 1) < int head"
    "\<And>p. get_last_block st' p = (if p = name then int head else get_last_block st p)"
  using assms
  unfolding collect_pool_def Let_def
  by (auto split: option.splits if_splits sum.splits
           simp: get_last_block_save get_last_block_daily)

lemma collect_pool_step:
  assumes "collect_pool w3 today st name pool_address lookback_blocks = Inr (n, st')"
  shows "get_last_block st p \<le> get_last_block st' p"
  using assms
proof (cases rule: collect_pool_cases)
  case (noop head)
  then show ?thesis by simp
next
  case (scan head)
  then show ?thesis by (auto split: if_splits)
qed

lemma sync_calls_mono: "get_last_block st p \<le> get_last_block (sync_calls cs st) p"
proof (induction cs arbitrary: st)
  case Nil
  show ?case by simp
next
  case (Cons c cs)
  obtain w3 today name addr lb where c: "c = (w3, today, name, addr, lb)"
    by (cases c) auto
  show ?case
  proof (cases "collect_pool w3 today st name addr lb")
    case (Inl e)
    with c Cons.IH [of st] show ?thesis by simp
  next
    case (Inr r)
    obtain n st' where r: "r = (n, st')" by (cases r) auto
    from Inr r have "get_last_block st p \<le> get_last_block st' p"
      by (auto intro: collect_pool_step)
    also have "\<dots> \<le> get_last_block (sync_calls cs st') p" by (rule Cons.IH)
    finally show ?thesis using c Inr r by simp
  qed
qed

lemma fetch_batches_all_fail:
  "\<forall>s e. get_logs w3 addr s e = None \<Longrightarrow> fetch_batches w3 addr a b logs = logs"
  by (induction w3 addr a b logs rule: fetch_batches.induct)
     (simp add: fetch_batches.simps Let_def)

lemma collect_pool_scan:
  assumes "block_number w3 = Some head"
    and "to_checksum_address w3 pool_address = Some addr"
    and "from_block = (if get_last_block st name = 0 then int head - lookback_blocks
                       else get_last_block st name + 1)"
    and "from_block < int head"
  shows "\<exists>st'. collect_pool w3 today st name pool_address lookback_blocks =
           Inr (int (length (decode_all w3 (fetch_batches w3 addr from_block (int head) []))), st')
         \<and> get_last_block st' name = int head"
proof -
  let ?swaps = "decode_all w3 (fetch_batches w3 addr from_block (int head) [])"
  let ?st1 = "if ?swaps \<noteq> [] then
       st\<lparr>daily_files := (daily_files st)((name, today) := daily_files st (name, today) @
             map (\<lambda>s. s\<lparr>pool := pool_address, pool_name := name\<rparr>) ?swaps)\<rparr>
     else st"
  have "collect_pool w3 today st name pool_address lookback_blocks =
      Inr (int (length ?swaps), save_last_block ?st1 name (int head))"
    using assms by (simp add: collect_pool_def get_swaps_def Let_def)
  moreover have "get_last_block (save_last_block ?st1 name (int head)) name = int head"
    by (simp add: get_last_block_save)
  ultimately show ?thesis by blast
qed

text \<open>
  C1. When \<open>collect_pool\<close> reads a head, the pool address is valid and the first block to
  scan lies below the head, the call returns the number of decoded events and the
  checkpoint of the pool is the head afterwards, whatever the log queries of the
  sub-ranges answer: nothing is assumed of \<open>get_logs\<close>, so this holds when some or all of
  them fail, and when every query fails the call still returns (the count 0) with the
  checkpoint at the head. A later call that finds a head above \<open>head + 1\<close> scans from
  \<open>head + 1\<close> on (for a head other than 0): the sub-ranges that failed are not queried
  again.
\<close>

theorem collect_pool_advances_checkpoint:
  assumes "block_number w3 = Some head"
    and "to_checksum_address w3 pool_address = Some addr"
    and "from_block = (if get_last_block st name = 0 then int head - lookback_blocks
                       else get_last_block st name + 1)"
    and "from_block < int head"
  shows "\<exists>st'. collect_pool w3 today st name pool_address lookback_blocks =
           Inr (int (length (decode_all w3 (fetch_batches w3 addr from_block (int head) []))), st')
         \<and> get_last_block st' name = int head
         \<and> ((\<forall>s e. get_logs w3 addr s e = None) \<longrightarrow>
              collect_pool w3 today st name pool_address lookback_blocks = Inr (0, st'))
         \<and> (0 < head \<and> block_number w3' = Some head'
              \<and> to_checksum_address w3' pool_address = Some addr' \<and> int head + 1 < int head' \<longrightarrow>
              (\<exists>st''. collect_pool w3' today' st' name pool_address lookback_blocks' =
                 Inr (int (length (decode_all w3'
                        (fetch_batches w3' addr' (int head + 1) (int head') []))), st'')
               \<and> get_last_block st'' name = int head'))"
proof -
  from collect_pool_scan [OF assms] obtain st' where
    run: "collect_pool w3 today st name pool_address lookback_blocks =
      Inr (int (length (decode_all w3 (fetch_batches w3 addr from_block (int head) []))), st')"
    and cp: "get_last_block st' name = int head"
    by blast
  have none: "collect_pool w3 today st name pool_address lookback_blocks = Inr (0, st')"
    if "\<forall>s e. get_logs w3 addr s e = None"
    using run fetch_batches_all_fail [OF that] by simp
  have later: "\<exists>st''. collect_pool w3' today' st' name pool_address lookback_blocks' =
        Inr (int (length (decode_all w3' (fetch_batches w3' addr' (int head + 1) (int head') []))), st'')
      \<and> get_last_block st'' name = int head'"
    if "0 < head" and "block_number w3' = Some head'"
      and "to_checksum_address w3' pool_address = Some addr'" and "int head + 1 < int head'"
  proof (rule collect_pool_scan)
    show "int head + 1 = (if get_last_block st' name = 0 then int head' - lookback_blocks'
        else get_last_block st' name + 1)"
      using cp that(1) by simp
  qed (use that in simp_all)
  from run cp none later show ?thesis by blast
qed

theorem collect_pool_advances_checkpoint_witness:
  "\<exists>st' st''. collect_pool ex_w3 ''2023-11-14'' ex_store ''poolA'' ''0xpool'' 1800 = Inr (1, st')
     \<and> get_last_block st' ''poolA'' = 100
     \<and> collect_pool (ex_w3\<lparr>block_number := Some 150\<rparr>) ''2023-11-15'' st' ''poolA'' ''0xpool'' 1800 =
         Inr (0, st'')
     \<and> get_last_block st'' ''poolA'' = 150"
proof -
  let ?w3' = "ex_w3\<lparr>block_number := Some 150\<rparr>"
  have a: "block_number ex_w3 = Some 100" by (simp add: ex_w3_def)
  have b: "to_checksum_address ex_w3 ''0xpool'' = Some ''0xpool''" by (simp add: ex_w3_def)
  have l: "get_last_block ex_store ''poolA'' = 39" by (simp add: get_last_block_def ex_store_def)
  have c: "(40::int) = (if get_last_block ex_store ''poolA'' = 0 then int 100 - 1800
                 else get_last_block ex_store ''poolA'' + 1)"
    by (simp add: l)
  have d: "(40::int) < int 100" by simp
  have f: "fetch_batches ex_w3 ''0xpool'' 40 100 [] = [ex_log 70 (- 5)]"
    by (simp add: fetch_batches.simps ex_w3_def BATCH_SIZE_def)
  have g: "length (decode_all ex_w3 [ex_log 70 (- 5)]) = 1"
    by (simp add: decode_swap_def ex_log_def ex_w3_def)
  have n: "int (length (decode_all ex_w3 (fetch_batches ex_w3 ''0xpool'' 40 (int 100) []))) = 1"
    by (simp add: f g del: decode_all.simps)
  have a': "(0::nat) < 100 \<and> block_number ?w3' = Some 150
      \<and> to_checksum_address ?w3' ''0xpool'' = Some ''0xpool'' \<and> int 100 + 1 < int 150"
    by (simp add: ex_w3_def)
  have f': "fetch_batches ?w3' ''0xpool'' 101 150 [] = []"
    by (simp add: fetch_batches.simps ex_w3_def BATCH_SIZE_def)
  have n': "int (length (decode_all ?w3' (fetch_batches ?w3' ''0xpool'' (int 100 + 1) (int 150) []))) = 0"
    by (simp add: f')
  from collect_pool_advances_checkpoint
    [OF a b c d, of "''2023-11-14''" ?w3' 150 "''0xpool''" "''2023-11-15''" 1800]
  obtain st' where 1: "collect_pool ex_w3 ''2023-11-14'' ex_store ''poolA'' ''0xpool'' 1800 =
      Inr (int (length (decode_all ex_w3 (fetch_batches ex_w3 ''0xpool'' 40 (int 100) []))), st')"
    and 2: "get_last_block st' ''poolA'' = int 100"
    and 3: "0 < (100::nat) \<and> block_number ?w3' = Some 150
        \<and> to_checksum_address ?w3' ''0xpool'' = Some ''0xpool'' \<and> int 100 + 1 < int 150 \<longrightarrow>
        (\<exists>st''. collect_pool ?w3' ''2023-11-15'' st' ''poolA'' ''0xpool'' 1800 =
           Inr (int (length (decode_all ?w3'
                  (fetch_batches ?w3' ''0xpool'' (int 100 + 1) (int 150) []))), st'')
         \<and> get_last_block st'' ''poolA'' = int 150)"
    by blast
  from 3 a' obtain st'' where 4: "collect_pool ?w3' ''2023-11-15'' st' ''poolA'' ''0xpool'' 1800 =
      Inr (int (length (decode_all ?w3'
             (fetch_batches ?w3' ''0xpool'' (int 100 + 1) (int 150) []))), st'')"
    and 5: "get_last_block st'' ''poolA'' = int 150"
    by blast
  from 1 2 4 5 show ?thesis unfolding n n' by auto
qed

text \<open>
  C2. The direction the collector stores for a log whose \<open>amount0\<close> is zero: the test
  \<open>amount0 > 0\<close> sends it to the \<open>else\<close> branch, \<open>buy_token0\<close>, while the analyzer
  counts the swap so stored as a sell of its wallet.
\<close>

theorem zero_amount0_stored_as_buy:
  "map (\<lambda>s. (amount0 s, direction s)) (decode_all ex_w3 [ex_log 70 0]) = [(0, ''buy_token0'')]
   \<and> (let w = wallet_of (analyze_wallet_activity (decode_all ex_w3 [ex_log 70 0])) ''alice''
      in (buy_count w, sell_count w, map tx_direction (txs w)) = (0, 1, [''buy_token0'']))"
  by (simp add: decode_swap_def ex_log_def ex_w3_def ex_args_def direction_of_def
        analyze_wallet_activity_def wallet_of_def record_swap_def new_wallet_def Let_def)

lemma direction_of_buy_iff: "direction_of a = ''buy_token0'' \<longleftrightarrow> a \<le> 0"
  by (simp add: direction_of_def)

text \<open>
  C8. Over any run of \<open>collect_pool\<close> calls, for any pools and with any ledger in each
  call, the checkpoint of a pool as \<open>get_last_block\<close> reads it never decreases; calls
  that raise leave the files as they are. A single call that returns either finds the
  first block to scan at or above the head, returns 0 and writes nothing, or writes the
  head; then the checkpoint read before is strictly below the head, except that at head 0
  with no checkpoint (read as 0) the value written equals the value read before.
\<close>

theorem checkpoint_never_decreases:
  "get_last_block st p \<le> get_last_block (sync_calls cs st) p
   \<and> (collect_pool w3 today st name pool_address lookback_blocks = Inr (n, st') \<longrightarrow>
        (\<exists>head. block_number w3 = Some head \<and>
           (if (if get_last_block st name = 0 then int head - lookback_blocks
                else get_last_block st name + 1) \<ge> int head
            then n = 0 \<and> st' = st
            else get_last_block st' name = int head
                 \<and> (get_last_block st name < int head
                      \<or> get_last_block st name = get_last_block st' name)))
        \<and> (get_last_block st' name = get_last_block st name
             \<or> get_last_block st name < get_last_block st' name))"
proof (intro conjI impI)
  show "get_last_block st p \<le> get_last_block (sync_calls cs st) p"
    by (rule sync_calls_mono)
next
  assume run: "collect_pool w3 today st name pool_address lookback_blocks = Inr (n, st')"
  then show "\<exists>head. block_number w3 = Some head \<and>
           (if (if get_last_block st name = 0 then int head - lookback_blocks
                else get_last_block st name + 1) \<ge> int head
            then n = 0 \<and> st' = st
            else get_last_block st' name = int head
                 \<and> (get_last_block st name < int head
                      \<or> get_last_block st name = get_last_block st' name))"
  proof (cases rule: collect_pool_cases)
    case (noop head)
    then show ?thesis by auto
  next
    case (scan head)
    then show ?thesis by (auto split: if_splits)
  qed
  from collect_pool_step [OF run, of name]
  show "get_last_block st' name = get_last_block st name
     \<or> get_last_block st name < get_last_block st' name"
    by auto
qed

theorem checkpoint_never_decreases_witness:
  "collect_pool ex_w3 ''2023-11-14'' ex_store ''poolA'' ''0xpool'' 1800 = Inr (1, ex_store_after)
   \<and> get_last_block ex_store ''poolA'' = 39
   \<and> get_last_block ex_store_after ''poolA'' = 100
   \<and> get_last_block ex_store ''poolA'' \<le>
       get_last_block (sync_calls [(ex_w3, ''2023-11-14'', ''poolA'', ''0xpool'', 1800)] ex_store) ''poolA''"
proof -
  have l: "get_last_block ex_store ''poolA'' = 39"
    by (simp add: get_last_block_def ex_store_def)
  have f: "fetch_batches ex_w3 ''0xpool'' 40 100 [] = [ex_log 70 (- 5)]"
    by (simp add: fetch_batches.simps ex_w3_def BATCH_SIZE_def)
  have g: "decode_all ex_w3 [ex_log 70 (- 5)] \<noteq> []"
    by (simp add: decode_swap_def ex_log_def ex_w3_def)
  have g': "length (decode_all ex_w3 [ex_log 70 (- 5)]) = 1"
    by (simp add: decode_swap_def ex_log_def ex_w3_def)
  have h: "block_number ex_w3 = Some 100" "to_checksum_address ex_w3 ''0xpool'' = Some ''0xpool''"
    by (simp_all add: ex_w3_def)
  have d: "daily_files ex_store (''poolA'', ''2023-11-14'') = []"
    by (simp add: ex_store_def)
  have run: "collect_pool ex_w3 ''2023-11-14'' ex_store ''poolA'' ''0xpool'' 1800 =
      Inr (1, ex_store_after)"
    by (simp add: collect_pool_def get_swaps_def Let_def l h f g g' d ex_store_after_def
             del: decode_all.simps)
  from checkpoint_never_decreases
    [of ex_store "''poolA''" "[(ex_w3, ''2023-11-14'', ''poolA'', ''0xpool'', 1800)]"
        ex_w3 "''2023-11-14''" "''poolA''" "''0xpool''" 1800 1 ex_store_after]
    run l h
  show ?thesis by auto
qed


section \<open>Properties of the order-flow analyzer\<close>

lemma slice_to_from: "slice_to xs (- k) @ slice_from xs (- k) = xs" if "k > 0"
  using that by (simp add: slice_to_def slice_from_def)

lemma older_recent_append: "older_hours hs @ recent_hours hs = hs"
proof (cases "length hs \<ge> 6")
  case True
  then show ?thesis
    by (simp add: older_hours_def recent_hours_def slice_to_def slice_from_def)
next
  case False
  have "nat (max 0 (int (length hs) + (- int (length hs)) div 2)) = length hs div 2"
    by (simp add: nat_eq_iff zdiv_int) linarith
  moreover have "nat (int (length hs) div 2) = length hs div 2"
    by (simp add: nat_eq_iff zdiv_int)
  ultimately show ?thesis using False
    by (cases "length hs = 0")
       (simp_all add: older_hours_def recent_hours_def slice_to_def slice_from_def)
qed

lemma length_recent_hours:
  "length (recent_hours hs) = (if length hs \<ge> 6 then 6 else (length hs + 1) div 2)"
proof (cases "length hs \<ge> 6")
  case True
  then show ?thesis by (simp add: recent_hours_def slice_from_def)
next
  case False
  have "nat (max 0 (int (length hs) + (- int (length hs)) div 2)) = length hs div 2"
    by (simp add: nat_eq_iff zdiv_int) linarith
  then have "length (recent_hours hs) = length hs - length hs div 2" using False
    by (simp add: recent_hours_def slice_from_def)
  then show ?thesis using False by simp
qed

lemma ex_hourly_flow8:
  "hourly_flow (flow_loop ex_swaps8 no_flow) =
     [(''2024-01-01T00'', 1, 0), (''2024-01-01T01'', 1, 0), (''2024-01-01T02'', 1, 0),
      (''2024-01-01T03'', 1, 0), (''2024-01-01T04'', 2, 0), (''2024-01-01T05'', 2, 0),
      (''2024-01-01T06'', 2, 0), (''2024-01-01T07'', 2, 0)]"
  by (simp add: ex_swaps8_def ex_swap_def no_flow_def flow_step_def flow_at_def Let_def)

lemma float_div_examples: "float_div 8 2 = 4" "float_div (- 1) 4 = - (1 / 4)"
proof -
  have "round_to 53 (- 1074) 4 = 4"
    by (rule round_to_exact [where m = 4 and k = 0]) simp_all
  then show "float_div 8 2 = 4" by (simp add: float_div_def)
  have "round_to 53 (- 1074) (- (1 / 4)) = - (1 / 4)"
    by (rule round_to_exact [where m = "- 1" and k = "- 2"]) simp_all
  then show "float_div (- 1) 4 = - (1 / 4)" by (simp add: float_div_def)
qed

text \<open>
  C3, as stated, fails: with eight hourly buckets the code compares the last six with the
  first two, where the claim takes the last four and the first four.
\<close>

theorem trend_window_counterexample:
  "trend_change_of (hourly_flow (flow_loop ex_swaps8 no_flow)) = 4
   \<and> claimed_trend_change (hourly_flow (flow_loop ex_swaps8 no_flow)) = 1"
  unfolding ex_hourly_flow8
  by (simp add: trend_change_of_def claimed_trend_change_def recent_hours_def older_hours_def
        claimed_recent_hours_def claimed_older_hours_def slice_from_def slice_to_def
        hour_net_def flow_at_def Let_def float_div_examples)

text \<open>
  C3, amended. With the bucket keys in ascending order, the older window followed by the
  recent window is the whole list; the recent window holds the last six buckets when at
  least six exist and the last \<open>(n + 1) div 2\<close> of \<open>n < 6\<close> buckets otherwise. With at
  least two buckets \<open>trend_change\<close> is the float of \<open>(recent - older) / |older|\<close>, and
  the sign of the recent net flow when the older net flow is zero; with fewer than two it
  is 0.
\<close>

theorem trend_change_windows:
  "(let hs = sort (map fst hf);
        recent_net = sum_list (map (hour_net hf) (recent_hours hs));
        older_net = sum_list (map (hour_net hf) (older_hours hs))
    in older_hours hs @ recent_hours hs = hs
       \<and> (length hs \<ge> 6 \<longrightarrow> length (recent_hours hs) = 6)
       \<and> (length hs < 6 \<longrightarrow> length (recent_hours hs) = (length hs + 1) div 2)
       \<and> (length hs \<ge> 2 \<longrightarrow>
            trend_change_of hf =
              (if older_net \<noteq> 0
               then float_div (recent_net - older_net) \<bar>older_net\<bar>
               else if recent_net > 0 then 1 else if recent_net < 0 then - 1 else 0))
       \<and> (length hs < 2 \<longrightarrow> trend_change_of hf = 0))"
proof -
  have "length (recent_hours hs) = 6" if "length hs \<ge> 6" for hs :: "string list"
    using that by (simp add: length_recent_hours)
  moreover have "length (recent_hours hs) = (length hs + 1) div 2" if "length hs < 6"
    for hs :: "string list"
    using that by (simp add: length_recent_hours)
  ultimately show ?thesis
    unfolding Let_def
    by (simp add: older_recent_append) (simp add: trend_change_of_def Let_def)
qed

theorem trend_change_windows_witness:
  "recent_hours (sort (map fst (hourly_flow (flow_loop ex_swaps8 no_flow)))) =
     [''2024-01-01T02'', ''2024-01-01T03'', ''2024-01-01T04'', ''2024-01-01T05'',
      ''2024-01-01T06'', ''2024-01-01T07'']
   \<and> older_hours (sort (map fst (hourly_flow (flow_loop ex_swaps8 no_flow)))) =
     [''2024-01-01T00'', ''2024-01-01T01'']
   \<and> trend_change_of (hourly_flow (flow_loop ex_swaps8 no_flow)) = float_div (10 - 2) \<bar>2\<bar>"
proof -
  let ?hf = "hourly_flow (flow_loop ex_swaps8 no_flow)"
  have hs: "sort (map fst ?hf) =
      [''2024-01-01T00'', ''2024-01-01T01'', ''2024-01-01T02'', ''2024-01-01T03'',
       ''2024-01-01T04'', ''2024-01-01T05'', ''2024-01-01T06'', ''2024-01-01T07'']"
    unfolding ex_hourly_flow8 by simp
  have r: "recent_hours (sort (map fst ?hf)) =
      [''2024-01-01T02'', ''2024-01-01T03'', ''2024-01-01T04'', ''2024-01-01T05'',
       ''2024-01-01T06'', ''2024-01-01T07'']"
    unfolding hs by (simp add: recent_hours_def slice_from_def)
  have o: "older_hours (sort (map fst ?hf)) = [''2024-01-01T00'', ''2024-01-01T01'']"
    unfolding hs by (simp add: older_hours_def slice_to_def)
  have rn: "sum_list (map (hour_net ?hf) (recent_hours (sort (map fst ?hf)))) = 10"
    unfolding r unfolding ex_hourly_flow8 by (simp add: hour_net_def flow_at_def)
  have on: "sum_list (map (hour_net ?hf) (older_hours (sort (map fst ?hf)))) = 2"
    unfolding o unfolding ex_hourly_flow8 by (simp add: hour_net_def flow_at_def)
  have len: "length (sort (map fst ?hf)) = 8" unfolding hs by simp
  note w = trend_change_windows [of ?hf, unfolded Let_def rn on len]
  from w have tc: "trend_change_of ?hf = float_div (10 - 2) \<bar>2\<bar>" by simp
  with r o show ?thesis by blast
qed

subsection \<open>Swaps with a zero \<open>amount0\<close>\<close>

lemma wallet_of_update:
  "wallet_of (AList.update k v ws) a = (if a = k then v else wallet_of ws a)"
  by (simp add: wallet_of_def update_conv')

lemma wallet_of_wallet_loop:
  "wallet_of (wallet_loop swaps ws) a =
     fold record_swap (filter (\<lambda>s. recipient s = a) swaps) (wallet_of ws a)"
  by (induction swaps arbitrary: ws) (auto simp: wallet_of_update)

lemma record_swap_fields:
  "buy_count (record_swap s w) = buy_count w + (if amount0 s < 0 then 1 else 0)"
  "sell_count (record_swap s w) = sell_count w + (if amount0 s < 0 then 0 else 1)"
  "buy_volume_token0 (record_swap s w) = buy_volume_token0 w + (if amount0 s < 0 then \<bar>amount0 s\<bar> else 0)"
  "sell_volume_token0 (record_swap s w) = sell_volume_token0 w + (if amount0 s < 0 then 0 else \<bar>amount0 s\<bar>)"
  "buy_volume_token1 (record_swap s w) = buy_volume_token1 w + (if amount0 s < 0 then \<bar>amount1 s\<bar> else 0)"
  "sell_volume_token1 (record_swap s w) = sell_volume_token1 w + (if amount0 s < 0 then 0 else \<bar>amount1 s\<bar>)"
  "net_token0 (record_swap s w) = net_token0 w - amount0 s"
  "net_token1 (record_swap s w) = net_token1 w - amount1 s"
  by (simp_all add: record_swap_def Let_def)

lemma fold_record_swap_shift:
  "buy_count (fold record_swap ss w) = buy_count (fold record_swap ss w') + (buy_count w - buy_count w')"
  "sell_count (fold record_swap ss w) = sell_count (fold record_swap ss w') + (sell_count w - sell_count w')"
  "buy_volume_token0 (fold record_swap ss w) =
     buy_volume_token0 (fold record_swap ss w') + (buy_volume_token0 w - buy_volume_token0 w')"
  "sell_volume_token0 (fold record_swap ss w) =
     sell_volume_token0 (fold record_swap ss w') + (sell_volume_token0 w - sell_volume_token0 w')"
  "buy_volume_token1 (fold record_swap ss w) =
     buy_volume_token1 (fold record_swap ss w') + (buy_volume_token1 w - buy_volume_token1 w')"
  "sell_volume_token1 (fold record_swap ss w) =
     sell_volume_token1 (fold record_swap ss w') + (sell_volume_token1 w - sell_volume_token1 w')"
  "net_token0 (fold record_swap ss w) = net_token0 (fold record_swap ss w') + (net_token0 w - net_token0 w')"
  "net_token1 (fold record_swap ss w) = net_token1 (fold record_swap ss w') + (net_token1 w - net_token1 w')"
proof (induction ss arbitrary: w w')
  case Nil
  {
    case 1 show ?case by simp next
    case 2 show ?case by simp next
    case 3 show ?case by simp next
    case 4 show ?case by simp next
    case 5 show ?case by simp next
    case 6 show ?case by simp next
    case 7 show ?case by simp next
    case 8 show ?case by simp
  }
next
  case (Cons s ss)
  {
    case 1 show ?case
      using Cons.IH(1) [of "record_swap s w" "record_swap s w'"] by (simp add: record_swap_fields)
  next
    case 2 show ?case
      using Cons.IH(2) [of "record_swap s w" "record_swap s w'"] by (simp add: record_swap_fields)
  next
    case 3 show ?case
      using Cons.IH(3) [of "record_swap s w" "record_swap s w'"] by (simp add: record_swap_fields)
  next
    case 4 show ?case
      using Cons.IH(4) [of "record_swap s w" "record_swap s w'"] by (simp add: record_swap_fields)
  next
    case 5 show ?case
      using Cons.IH(5) [of "record_swap s w" "record_swap s w'"] by (simp add: record_swap_fields)
  next
    case 6 show ?case
      using Cons.IH(6) [of "record_swap s w" "record_swap s w'"] by (simp add: record_swap_fields)
  next
    case 7 show ?case
      using Cons.IH(7) [of "record_swap s w" "record_swap s w'"] by (simp add: record_swap_fields)
  next
    case 8 show ?case
      using Cons.IH(8) [of "record_swap s w" "record_swap s w'"] by (simp add: record_swap_fields)
  }
qed

lemma flow_loop_append: "flow_loop (xs @ ys) a = flow_loop ys (flow_loop xs a)"
  by (induction xs arbitrary: a) auto

lemma flow_step_fields:
  "acc_buy_count (flow_step s a) = acc_buy_count a + (if amount0 s < 0 then 1 else 0)"
  "acc_sell_count (flow_step s a) = acc_sell_count a + (if amount0 s < 0 then 0 else 1)"
  "acc_buy_volume (flow_step s a) = acc_buy_volume a + (if amount0 s < 0 then \<bar>amount0 s\<bar> else 0)"
  "acc_sell_volume (flow_step s a) = acc_sell_volume a + (if amount0 s < 0 then 0 else \<bar>amount0 s\<bar>)"
  by (simp_all add: flow_step_def Let_def split: prod.splits)

lemma flow_loop_shift:
  "acc_buy_count (flow_loop ss a) = acc_buy_count (flow_loop ss a') + (acc_buy_count a - acc_buy_count a')"
  "acc_sell_count (flow_loop ss a) = acc_sell_count (flow_loop ss a') + (acc_sell_count a - acc_sell_count a')"
  "acc_buy_volume (flow_loop ss a) = acc_buy_volume (flow_loop ss a') + (acc_buy_volume a - acc_buy_volume a')"
  "acc_sell_volume (flow_loop ss a) = acc_sell_volume (flow_loop ss a') + (acc_sell_volume a - acc_sell_volume a')"
proof (induction ss arbitrary: a a')
  case Nil
  {
    case 1 show ?case by simp next
    case 2 show ?case by simp next
    case 3 show ?case by simp next
    case 4 show ?case by simp
  }
next
  case (Cons s ss)
  {
    case 1 show ?case
      using Cons.IH(1) [of "flow_step s a" "flow_step s a'"] by (simp add: flow_step_fields)
  next
    case 2 show ?case
      using Cons.IH(2) [of "flow_step s a" "flow_step s a'"] by (simp add: flow_step_fields)
  next
    case 3 show ?case
      using Cons.IH(3) [of "flow_step s a" "flow_step s a'"] by (simp add: flow_step_fields)
  next
    case 4 show ?case
      using Cons.IH(4) [of "flow_step s a" "flow_step s a'"] by (simp add: flow_step_fields)
  }
qed

text \<open>
  C10, as stated, fails: an event with \<open>amount0 = 0\<close> and \<open>amount1 = 7\<close> adds 7 to the
  token1 sell volume of its wallet, and by opening a sixth, empty hourly bucket it turns
  the trend signal of the five buys before it from decelerating to accelerating.
\<close>

theorem zero_amount0_counterexample:
  "amount0 ex_zero_swap = 0
   \<and> sell_volume_token1 (wallet_of (analyze_wallet_activity [ex_zero_swap]) ''alice'') = 7
   \<and> map_option trend_signal (compute_order_flow_metrics ex_swaps5) = Some ''DECELERATING''
   \<and> map_option trend_signal (compute_order_flow_metrics (ex_swaps5 @ [ex_zero_swap])) =
       Some ''ACCELERATING''"
proof -
  have hf5: "hourly_flow (flow_loop ex_swaps5 no_flow) =
      [(''2024-01-01T00'', 2, 0), (''2024-01-01T01'', 2, 0), (''2024-01-01T02'', 1, 0),
       (''2024-01-01T03'', 1, 0), (''2024-01-01T04'', 1, 0)]"
    by (simp add: ex_swaps5_def ex_swap_def no_flow_def flow_step_def flow_at_def Let_def)
  have hf6: "hourly_flow (flow_loop (ex_swaps5 @ [ex_zero_swap]) no_flow) =
      [(''2024-01-01T00'', 2, 0), (''2024-01-01T01'', 2, 0), (''2024-01-01T02'', 1, 0),
       (''2024-01-01T03'', 1, 0), (''2024-01-01T04'', 1, 0), (''2024-01-01T05'', 0, 0)]"
    by (simp add: ex_swaps5_def ex_zero_swap_def ex_swap_def no_flow_def flow_step_def
          flow_at_def Let_def)
  have t5: "trend_change_of (hourly_flow (flow_loop ex_swaps5 no_flow)) = - (1 / 4)"
    unfolding hf5
    by (simp add: trend_change_of_def recent_hours_def older_hours_def slice_from_def
          slice_to_def hour_net_def flow_at_def Let_def float_div_examples)
  have t6: "trend_change_of (hourly_flow (flow_loop (ex_swaps5 @ [ex_zero_swap]) no_flow)) = 1"
    unfolding hf6
    by (simp add: trend_change_of_def recent_hours_def older_hours_def slice_from_def
          slice_to_def hour_net_def flow_at_def Let_def)
  have n5: "ex_swaps5 \<noteq> []" by (simp add: ex_swaps5_def)
  have s5: "map_option trend_signal (compute_order_flow_metrics ex_swaps5) = Some ''DECELERATING''"
    using n5 by (simp add: compute_order_flow_metrics_def Let_def t5 float_0_2_def)
  have s6: "map_option trend_signal (compute_order_flow_metrics (ex_swaps5 @ [ex_zero_swap])) =
      Some ''ACCELERATING''"
    by (simp add: compute_order_flow_metrics_def Let_def t6 float_0_2_def)
  have z: "amount0 ex_zero_swap = 0" by (simp add: ex_zero_swap_def ex_swap_def)
  have v: "sell_volume_token1 (wallet_of (analyze_wallet_activity [ex_zero_swap]) ''alice'') = 7"
    by (simp add: analyze_wallet_activity_def wallet_of_update record_swap_fields
          ex_zero_swap_def ex_swap_def)
       (simp add: wallet_of_def new_wallet_def record_swap_fields)
  from z v s5 s6 show ?thesis by blast
qed

text \<open>
  C10, amended. Put a swap with \<open>amount0 = 0\<close> anywhere in a list of swaps. In
  \<open>analyze_wallet_activity\<close> its wallet gets one more sell and the same buy count, the
  same token0 buy and sell volumes, the same net token0 and the same token1 buy volume;
  its token1 sell volume grows by \<open>|amount1|\<close> and its net token1 falls by \<open>amount1\<close>;
  the other wallets are as before. In \<open>compute_order_flow_metrics\<close> the sell count grows
  by one and the buy count, both total volumes, the net flow, the buy/sell ratio, the
  imbalance and the market direction are as before. Nothing is said of the trend.
\<close>

theorem zero_amount0_counted_as_sell:
  assumes "amount0 s = 0"
  shows "(let W = wallet_of (analyze_wallet_activity (xs @ s # ys)) (recipient s);
              W0 = wallet_of (analyze_wallet_activity (xs @ ys)) (recipient s)
          in sell_count W = sell_count W0 + 1 \<and> buy_count W = buy_count W0
             \<and> buy_volume_token0 W = buy_volume_token0 W0
             \<and> sell_volume_token0 W = sell_volume_token0 W0
             \<and> net_token0 W = net_token0 W0
             \<and> buy_volume_token1 W = buy_volume_token1 W0
             \<and> sell_volume_token1 W = sell_volume_token1 W0 + \<bar>amount1 s\<bar>
             \<and> net_token1 W = net_token1 W0 - amount1 s)
         \<and> (\<forall>a. a \<noteq> recipient s \<longrightarrow>
               wallet_of (analyze_wallet_activity (xs @ s # ys)) a =
               wallet_of (analyze_wallet_activity (xs @ ys)) a)
         \<and> (xs @ ys \<noteq> [] \<longrightarrow>
              (\<exists>M M0. compute_order_flow_metrics (xs @ s # ys) = Some M
                 \<and> compute_order_flow_metrics (xs @ ys) = Some M0
                 \<and> metrics_sell_count M = metrics_sell_count M0 + 1
                 \<and> metrics_buy_count M = metrics_buy_count M0
                 \<and> total_buy_volume M = total_buy_volume M0
                 \<and> total_sell_volume M = total_sell_volume M0
                 \<and> net_flow M = net_flow M0
                 \<and> buy_sell_ratio M = buy_sell_ratio M0
                 \<and> order_flow_imbalance M = order_flow_imbalance M0
                 \<and> market_direction M = market_direction M0))"
proof (intro conjI allI impI)
  let ?r = "recipient s"
  let ?X = "fold record_swap (filter (\<lambda>t. recipient t = ?r) xs) new_wallet"
  let ?fys = "filter (\<lambda>t. recipient t = ?r) ys"
  have W: "wallet_of (analyze_wallet_activity (xs @ s # ys)) ?r =
      fold record_swap ?fys (record_swap s ?X)"
    by (simp add: analyze_wallet_activity_def wallet_of_wallet_loop) (simp add: wallet_of_def)
  have W0: "wallet_of (analyze_wallet_activity (xs @ ys)) ?r = fold record_swap ?fys ?X"
    by (simp add: analyze_wallet_activity_def wallet_of_wallet_loop) (simp add: wallet_of_def)
  show "let W = wallet_of (analyze_wallet_activity (xs @ s # ys)) ?r;
            W0 = wallet_of (analyze_wallet_activity (xs @ ys)) ?r
        in sell_count W = sell_count W0 + 1 \<and> buy_count W = buy_count W0
           \<and> buy_volume_token0 W = buy_volume_token0 W0
           \<and> sell_volume_token0 W = sell_volume_token0 W0
           \<and> net_token0 W = net_token0 W0
           \<and> buy_volume_token1 W = buy_volume_token1 W0
           \<and> sell_volume_token1 W = sell_volume_token1 W0 + \<bar>amount1 s\<bar>
           \<and> net_token1 W = net_token1 W0 - amount1 s"
    unfolding Let_def W W0
    using fold_record_swap_shift [of ?fys "record_swap s ?X" ?X] assms
    by (simp add: record_swap_fields)
next
  fix a
  assume "a \<noteq> recipient s"
  then show "wallet_of (analyze_wallet_activity (xs @ s # ys)) a =
      wallet_of (analyze_wallet_activity (xs @ ys)) a"
    by (auto simp: analyze_wallet_activity_def wallet_of_wallet_loop)
next
  assume ne: "xs @ ys \<noteq> []"
  let ?A = "flow_loop (xs @ s # ys) no_flow"
  let ?B = "flow_loop (xs @ ys) no_flow"
  let ?Y = "flow_loop xs no_flow"
  have A: "?A = flow_loop ys (flow_step s ?Y)" by (simp add: flow_loop_append)
  have A0: "?B = flow_loop ys ?Y" by (simp add: flow_loop_append)
  have f: "acc_sell_count ?A = acc_sell_count ?B + 1" "acc_buy_count ?A = acc_buy_count ?B"
    "acc_buy_volume ?A = acc_buy_volume ?B" "acc_sell_volume ?A = acc_sell_volume ?B"
    unfolding A A0
    using flow_loop_shift [of ys "flow_step s ?Y" ?Y] assms
    by (simp_all add: flow_step_fields)
  have "compute_order_flow_metrics (xs @ s # ys) \<noteq> None"
    "compute_order_flow_metrics (xs @ ys) \<noteq> None"
    using ne by (simp_all add: compute_order_flow_metrics_def Let_def)
  then obtain M M0 where M: "compute_order_flow_metrics (xs @ s # ys) = Some M"
    and M0: "compute_order_flow_metrics (xs @ ys) = Some M0"
    by auto
  let ?ratio = "\<lambda>a. round3 (if acc_sell_volume a > 0
        then float_div (acc_buy_volume a) (acc_sell_volume a)
        else if acc_buy_volume a > 0 then 999 else 1)"
  let ?ofi = "\<lambda>a. if acc_buy_volume a + acc_sell_volume a > 0
        then float_div (acc_buy_volume a - acc_sell_volume a)
               (acc_buy_volume a + acc_sell_volume a)
        else (0::real)"
  let ?dir = "\<lambda>a. if ?ofi a > float_0_1 then ''BULLISH''
        else if ?ofi a < - float_0_1 then ''BEARISH'' else ''NEUTRAL''"
  have fields: "metrics_sell_count m = acc_sell_count (flow_loop zs no_flow)
      \<and> metrics_buy_count m = acc_buy_count (flow_loop zs no_flow)
      \<and> total_buy_volume m = acc_buy_volume (flow_loop zs no_flow)
      \<and> total_sell_volume m = acc_sell_volume (flow_loop zs no_flow)
      \<and> net_flow m = acc_buy_volume (flow_loop zs no_flow) - acc_sell_volume (flow_loop zs no_flow)
      \<and> buy_sell_ratio m = ?ratio (flow_loop zs no_flow)
      \<and> order_flow_imbalance m = round3 (?ofi (flow_loop zs no_flow))
      \<and> market_direction m = ?dir (flow_loop zs no_flow)"
    if "compute_order_flow_metrics zs = Some m" for zs m
    using that
    by (cases "zs = []") (auto simp: compute_order_flow_metrics_def Let_def)
  note Mf = fields [OF M] and M0f = fields [OF M0]
  show "\<exists>M M0. compute_order_flow_metrics (xs @ s # ys) = Some M
       \<and> compute_order_flow_metrics (xs @ ys) = Some M0
       \<and> metrics_sell_count M = metrics_sell_count M0 + 1
       \<and> metrics_buy_count M = metrics_buy_count M0
       \<and> total_buy_volume M = total_buy_volume M0
       \<and> total_sell_volume M = total_sell_volume M0
       \<and> net_flow M = net_flow M0
       \<and> buy_sell_ratio M = buy_sell_ratio M0
       \<and> order_flow_imbalance M = order_flow_imbalance M0
       \<and> market_direction M = market_direction M0"
    using M M0 Mf M0f unfolding f by auto
qed

theorem zero_amount0_counted_as_sell_witness:
  "amount0 ex_zero_swap = 0
   \<and> sell_count (wallet_of (analyze_wallet_activity (ex_swaps5 @ [ex_zero_swap])) ''alice'') = 1
   \<and> sell_volume_token0
        (wallet_of (analyze_wallet_activity (ex_swaps5 @ [ex_zero_swap])) ''alice'') = 0
   \<and> map_option metrics_sell_count (compute_order_flow_metrics (ex_swaps5 @ [ex_zero_swap])) = Some 1
   \<and> map_option total_sell_volume (compute_order_flow_metrics (ex_swaps5 @ [ex_zero_swap])) = Some 0"
proof -
  have z: "amount0 ex_zero_swap = 0" by (simp add: ex_zero_swap_def ex_swap_def)
  have r: "recipient ex_zero_swap = ''alice''" by (simp add: ex_zero_swap_def ex_swap_def)
  have ne: "ex_swaps5 @ [] \<noteq> []" by (simp add: ex_swaps5_def)
  have w0: "sell_count (wallet_of (analyze_wallet_activity ex_swaps5) ''alice'') = 0"
    "sell_volume_token0 (wallet_of (analyze_wallet_activity ex_swaps5) ''alice'') = 0"
    by (simp_all add: analyze_wallet_activity_def wallet_of_wallet_loop ex_swaps5_def ex_swap_def
          record_swap_fields wallet_of_def new_wallet_def)
  have a0: "acc_sell_count (flow_loop ex_swaps5 no_flow) = 0"
    "acc_sell_volume (flow_loop ex_swaps5 no_flow) = 0"
    by (simp_all add: ex_swaps5_def ex_swap_def flow_step_fields no_flow_def)
  have m0: "map_option metrics_sell_count (compute_order_flow_metrics ex_swaps5) = Some 0"
    "map_option total_sell_volume (compute_order_flow_metrics ex_swaps5) = Some 0"
    using ne by (simp_all add: compute_order_flow_metrics_def Let_def a0)
  note t = zero_amount0_counted_as_sell [OF z, of ex_swaps5 "[]", unfolded Let_def r]
  from t w0 have w: "sell_count (wallet_of (analyze_wallet_activity (ex_swaps5 @ [ex_zero_swap])) ''alice'') = 1"
    "sell_volume_token0 (wallet_of (analyze_wallet_activity (ex_swaps5 @ [ex_zero_swap])) ''alice'') = 0"
    by simp_all
  from t ne obtain M M0 where "compute_order_flow_metrics (ex_swaps5 @ [ex_zero_swap]) = Some M"
    and "compute_order_flow_metrics (ex_swaps5 @ []) = Some M0"
    and "metrics_sell_count M = metrics_sell_count M0 + 1"
    and "total_sell_volume M = total_sell_volume M0"
    by blast
  with m0 have "map_option metrics_sell_count (compute_order_flow_metrics (ex_swaps5 @ [ex_zero_swap])) = Some 1"
    "map_option total_sell_volume (compute_order_flow_metrics (ex_swaps5 @ [ex_zero_swap])) = Some 0"
    by simp_all
  with z w show ?thesis by blast
qed

subsection \<open>Window patterns\<close>

declare str_nat.simps [simp del]

lemma ex_day_windows:
  "window_loop ex_parse 24 (ex_day 30) [] =
     Inr [(''2024-01-01_0'', \<lparr>buys = [30, 30, 30, 30, 30], sells = [40, 30, 30]\<rparr>)]"
  "window_loop ex_parse 24 (ex_day 31) [] =
     Inr [(''2024-01-01_0'', \<lparr>buys = [31, 30, 30, 30, 30], sells = [40, 30, 30]\<rparr>)]"
  "window_loop ex_parse 24 ex_wei_day [] =
     Inr [(''2024-01-01_0'', \<lparr>buys = [1500000000000000000, 1], sells = [1000000000000000001]\<rparr>)]"
  by code_simp+

text \<open>The chain on products that the doubles hold exactly.\<close>

lemma classify_exact:
  assumes "\<bar>buy_vol\<bar> \<le> 2 ^ 51" and "\<bar>sell_vol\<bar> \<le> 2 ^ 51"
  shows "classify buy_vol sell_vol buy_cnt sell_cnt =
     Inr (if real_of_int buy_vol > 3 / 2 * real_of_int sell_vol \<and> buy_cnt > sell_cnt
          then ''ACCUMULATION''
          else if real_of_int sell_vol > 3 / 2 * real_of_int buy_vol \<and> sell_cnt > buy_cnt
          then ''DISTRIBUTION''
          else if buy_cnt > 2 * sell_cnt then ''RETAIL_BUYING''
          else if sell_cnt > 2 * buy_cnt then ''RETAIL_SELLING''
          else ''MIXED'')"
  by (simp add: classify_def int_mul_float_1_5 [OF assms(1)] int_mul_float_1_5 [OF assms(2)]
        int_greater_def mult.commute)

text \<open>The double nearest to 1000000000000000001 is \<open>10 ^ 18\<close>, and one and a half times that is a double.\<close>

lemma double_wei: "double 1000000000000000001 = Finite 1000000000000000000"
proof -
  have "round_to 53 (- 1074) 1000000000000000001 = 1000000000000000000"
    by (simp add: round_to_eval [where e = 7] round_half_even_def)
  moreover have "(1000000000000000000::real) \<le> DBL_MAX"
    by (simp add: DBL_MAX_def)
  ultimately show ?thesis by (simp add: double_def fp_round_def)
qed

lemma double_wei_product: "double (1000000000000000000 * (3 / 2)) = Finite 1500000000000000000"
proof -
  have "double 1500000000000000000 = Finite 1500000000000000000"
    by (rule double_exact [where m = 5859375000000000 and k = 8]) (simp_all add: DBL_MAX_def)
  then show ?thesis by simp
qed

lemma classify_wei:
  "classify 1500000000000000001 1000000000000000001 2 1 = Inr ''ACCUMULATION''"
  using double_wei double_wei_product
  by (simp add: classify_def int_mul_float_def int_to_double_def int_greater_def)

lemma analyze_windows_members:
  "analyze_windows ws = Inr ps \<Longrightarrow> p \<in> set ps \<Longrightarrow> \<exists>w \<in> set ws. analyze_window w = Inr p"
proof (induction ws arbitrary: ps)
  case Nil
  then show ?case by simp
next
  case (Cons w ws)
  then show ?case by (auto split: sum.splits)
qed

text \<open>
  The claim gives the window of the three swaps of \<open>ex_wei_day\<close> as mixed: its buy volume
  1500000000000000001 does not exceed one and a half times its sell volume
  1000000000000000001, and its two buys are not more than twice its one sell. The code
  returns an accumulation: \<open>sell_vol * 1.5\<close> is the double 1500000000000000000.
\<close>

theorem window_pattern_counterexample:
  "detect_accumulation_distribution ex_parse ex_wei_day 24 = Inr (Some ex_wei_detection)
   \<and> claimed_classify 1500000000000000001 1000000000000000001 2 1 = ''MIXED''"
proof -
  have ne: "ex_wei_day \<noteq> []" by (simp add: ex_wei_day_def)
  have "detect_accumulation_distribution ex_parse ex_wei_day 24 = Inr (Some ex_wei_detection)"
    by (simp add: detect_accumulation_distribution_def ne ex_day_windows analyze_window_def
          classify_wei ex_wei_detection_def)
  moreover have "claimed_classify 1500000000000000001 1000000000000000001 2 1 = ''MIXED''"
    by (simp add: claimed_classify_def)
  ultimately show ?thesis by blast
qed

text \<open>
  C5, amended. Every window that \<open>detect_accumulation_distribution\<close> returns carries the
  label that the chain of strict tests gives to its volumes and counts, in the order
  accumulation, distribution, retail buying, retail selling, mixed, where one and a half
  times a volume is the product in doubles of the double nearest to the volume and 1.5.
  For volumes up to \<open>2 ^ 51\<close> that product is exact, and the label is the one of the
  chain on the exact products. The volumes 150 and 100 with the counts 5 and 3 are
  mixed; 151 and 100 with the same counts are an accumulation.
\<close>

theorem window_classification:
  "(detect_accumulation_distribution parse swaps window_hours = Inr (Some d) \<longrightarrow>
      (\<forall>p \<in> set (windows d).
         classify (buy_volume p) (sell_volume p) (window_buy_count p) (window_sell_count p) =
           Inr (pattern p)
         \<and> (\<bar>buy_volume p\<bar> \<le> 2 ^ 51 \<and> \<bar>sell_volume p\<bar> \<le> 2 ^ 51 \<longrightarrow>
              pattern p =
                (if real_of_int (buy_volume p) > 3 / 2 * real_of_int (sell_volume p)
                    \<and> window_buy_count p > window_sell_count p then ''ACCUMULATION''
                 else if real_of_int (sell_volume p) > 3 / 2 * real_of_int (buy_volume p)
                    \<and> window_sell_count p > window_buy_count p then ''DISTRIBUTION''
                 else if window_buy_count p > 2 * window_sell_count p then ''RETAIL_BUYING''
                 else if window_sell_count p > 2 * window_buy_count p then ''RETAIL_SELLING''
                 else ''MIXED''))))
   \<and> classify 150 100 5 3 = Inr ''MIXED''
   \<and> classify 151 100 5 3 = Inr ''ACCUMULATION''"
proof (intro conjI impI ballI)
  fix p
  assume run: "detect_accumulation_distribution parse swaps window_hours = Inr (Some d)"
    and p: "p \<in> set (windows d)"
  from run obtain ws where "analyze_windows (sort_key fst ws) = Inr (windows d)"
    by (auto simp: detect_accumulation_distribution_def Let_def split: if_splits sum.splits)
  with p obtain w where "analyze_window w = Inr p"
    using analyze_windows_members by blast
  then show c: "classify (buy_volume p) (sell_volume p) (window_buy_count p)
      (window_sell_count p) = Inr (pattern p)"
    by (cases w) (auto simp: analyze_window_def Let_def split: sum.splits)
  assume "\<bar>buy_volume p\<bar> \<le> 2 ^ 51 \<and> \<bar>sell_volume p\<bar> \<le> 2 ^ 51"
  then have "classify (buy_volume p) (sell_volume p) (window_buy_count p) (window_sell_count p) =
     Inr (if real_of_int (buy_volume p) > 3 / 2 * real_of_int (sell_volume p)
             \<and> window_buy_count p > window_sell_count p
          then ''ACCUMULATION''
          else if real_of_int (sell_volume p) > 3 / 2 * real_of_int (buy_volume p)
             \<and> window_sell_count p > window_buy_count p
          then ''DISTRIBUTION''
          else if window_buy_count p > 2 * window_sell_count p then ''RETAIL_BUYING''
          else if window_sell_count p > 2 * window_buy_count p then ''RETAIL_SELLING''
          else ''MIXED'')"
    by (intro classify_exact) simp_all
  with c have "Inr (pattern p) =
     (Inr (if real_of_int (buy_volume p) > 3 / 2 * real_of_int (sell_volume p)
             \<and> window_buy_count p > window_sell_count p
          then ''ACCUMULATION''
          else if real_of_int (sell_volume p) > 3 / 2 * real_of_int (buy_volume p)
             \<and> window_sell_count p > window_buy_count p
          then ''DISTRIBUTION''
          else if window_buy_count p > 2 * window_sell_count p then ''RETAIL_BUYING''
          else if window_sell_count p > 2 * window_buy_count p then ''RETAIL_SELLING''
          else ''MIXED'') :: error + string)"
    by (simp only:)
  then show "pattern p =
      (if real_of_int (buy_volume p) > 3 / 2 * real_of_int (sell_volume p)
          \<and> window_buy_count p > window_sell_count p then ''ACCUMULATION''
       else if real_of_int (sell_volume p) > 3 / 2 * real_of_int (buy_volume p)
          \<and> window_sell_count p > window_buy_count p then ''DISTRIBUTION''
       else if window_buy_count p > 2 * window_sell_count p then ''RETAIL_BUYING''
       else if window_sell_count p > 2 * window_buy_count p then ''RETAIL_SELLING''
       else ''MIXED'')"
    by (simp only: sum.inject)
next
  show "classify 150 100 5 3 = Inr ''MIXED''"
    using classify_exact [of 150 100 5 3] by simp
next
  show "classify 151 100 5 3 = Inr ''ACCUMULATION''"
    using classify_exact [of 151 100 5 3] by simp
qed

theorem window_classification_witness:
  "detect_accumulation_distribution ex_parse (ex_day 30) 24 = Inr (Some (ex_detection ''MIXED'' 150))
   \<and> map (\<lambda>p. (buy_volume p, sell_volume p, window_buy_count p, window_sell_count p, pattern p))
        (windows (ex_detection ''MIXED'' 150)) = [(150, 100, 5, 3, ''MIXED'')]
   \<and> classify 150 100 5 3 = Inr ''MIXED''
   \<and> detect_accumulation_distribution ex_parse (ex_day 31) 24 =
       Inr (Some (ex_detection ''ACCUMULATION'' 151))"
proof -
  have ne: "ex_day b \<noteq> []" for b by (simp add: ex_day_def)
  have c: "classify 150 100 5 3 = Inr ''MIXED''" "classify 151 100 5 3 = Inr ''ACCUMULATION''"
    using classify_exact [of 150 100 5 3] classify_exact [of 151 100 5 3] by simp_all
  have d30: "detect_accumulation_distribution ex_parse (ex_day 30) 24 =
      Inr (Some (ex_detection ''MIXED'' 150))"
    by (simp add: detect_accumulation_distribution_def ne ex_day_windows analyze_window_def
          c ex_detection_def)
  have d31: "detect_accumulation_distribution ex_parse (ex_day 31) 24 =
      Inr (Some (ex_detection ''ACCUMULATION'' 151))"
    by (simp add: detect_accumulation_distribution_def ne ex_day_windows analyze_window_def
          c ex_detection_def)
  from window_classification [of ex_parse "ex_day 30" 24 "ex_detection ''MIXED'' 150"] d30 d31
  show ?thesis by (simp add: ex_detection_def)
qed

subsection \<open>Whales\<close>
















section \<open>Properties of the state normalizer\<close>

subsection \<open>Normalization by range\<close>

lemma double_not_NaN [simp]: "double x \<noteq> NaN"
  by (simp add: double_def fp_round_def Let_def)

lemma float32_not_NaN [simp]: "float32 x \<noteq> NaN"
  by (simp add: float32_def fp_round_def Let_def)

lemma double_hundreds [simp]:
  "double 100 = Finite 100" "double 200 = Finite 200" "double 199 = Finite 199"
  using double_of_int [of 100] double_of_int [of 200] double_of_int [of 199] by simp_all

lemma float32_tens [simp]: "float32 10 = Finite 10" "float32 199 = Finite 199"
proof -
  show "float32 10 = Finite 10"
    by (rule float32_exact [where m = 10 and k = 0]) (simp_all add: FLT_MAX_def)
  show "float32 199 = Finite 199"
    by (rule float32_exact [where m = 199 and k = 0]) (simp_all add: FLT_MAX_def)
qed
















subsection \<open>Saving and loading\<close>

lemma json_numbers_floats: "json_numbers (map JFloat xs) = Some xs"
  by (induction xs) auto

lemma load_save: "load nz0 path (save nz path fs) = (None, nz)"
  by (simp add: load_def save_def Let_def json_numbers_floats)

text \<open>
  C9. Loading, into any normalizer object, the file that \<open>save\<close> wrote for a normalizer
  raises nothing and gives that normalizer: \<open>state_dim\<close>, \<open>clip_range\<close>, \<open>mean\<close>, \<open>var\<close>
  and \<open>count\<close> are as they were saved, and \<open>normalize_running\<close> answers on the loaded
  object as on the saved one. A save to another path in between does not matter.
\<close>

theorem save_load_round_trip:
  "load nz0 path (save nz path fs) = (None, nz)
   \<and> state_dim (snd (load nz0 path (save nz path fs))) = state_dim nz
   \<and> clip_range (snd (load nz0 path (save nz path fs))) = clip_range nz
   \<and> mean (snd (load nz0 path (save nz path fs))) = mean nz
   \<and> var (snd (load nz0 path (save nz path fs))) = var nz
   \<and> count (snd (load nz0 path (save nz path fs))) = count nz
   \<and> normalize_running (snd (load nz0 path (save nz path fs))) state = normalize_running nz state
   \<and> (path' \<noteq> path \<longrightarrow> load nz0 path (save nz' path' (save nz path fs)) = (None, nz))"
proof -
  have "load nz0 path (save nz' path' (save nz path fs)) = (None, nz)" if "path' \<noteq> path"
    using that by (simp add: load_def save_def Let_def json_numbers_floats)
  then show ?thesis by (simp add: load_save)
qed

theorem save_load_round_trip_witness:
  "load ex_fresh ''normalizer.json'' (save ex_saved ''normalizer.json'' Map.empty) = (None, ex_saved)
   \<and> ''other.json'' \<noteq> ''normalizer.json''
   \<and> load ex_fresh ''normalizer.json''
        (save ex_fresh ''other.json'' (save ex_saved ''normalizer.json'' Map.empty)) = (None, ex_saved)"
  using save_load_round_trip
    [of ex_fresh "''normalizer.json''" ex_saved Map.empty "[]" "''other.json''" ex_fresh]
  by simp

subsection \<open>Running statistics\<close>

text \<open>
  What \<open>update\<close> computes in general: after the observations \<open>xs\<close>, each of the length
  of the arrays, the count is their number, the mean their arithmetic mean, and \<open>var\<close>
  the value it had at the start plus the sum of their squared deviations from the mean.
\<close>

lemma sum_sq_dev:
  "(\<Sum>y\<leftarrow>zs. (y - a)\<^sup>2) = (\<Sum>y\<leftarrow>zs. y\<^sup>2) - 2 * a * sum_list zs + real (length zs) * a\<^sup>2"
  for a :: real
  by (induction zs) (simp_all add: power2_eq_square algebra_simps)

lemma welford_step:
  fixes z :: real
  assumes m: "m = sum_list zs / real (length zs)"
    and m': "m' = m + (z - m) / real (length zs + 1)"
  shows "m' = sum_list (zs @ [z]) / real (length (zs @ [z]))"
    and "(\<Sum>y\<leftarrow>zs @ [z]. (y - m')\<^sup>2) = (\<Sum>y\<leftarrow>zs. (y - m)\<^sup>2) + (z - m) * (z - m')"
proof -
  show mean: "m' = sum_list (zs @ [z]) / real (length (zs @ [z]))"
  proof (cases "zs = []")
    case True
    then show ?thesis using m m' by simp
  next
    case False
    then have "real (length zs) > 0" by simp
    then show ?thesis using m m' by (simp add: field_simps)
  qed
  show "(\<Sum>y\<leftarrow>zs @ [z]. (y - m')\<^sup>2) = (\<Sum>y\<leftarrow>zs. (y - m)\<^sup>2) + (z - m) * (z - m')"
  proof (cases "zs = []")
    case True
    then show ?thesis using m m' by simp
  next
    case False
    define k where "k = real (length zs)"
    define S where "S = sum_list zs"
    define Q where "Q = (\<Sum>y\<leftarrow>zs. y\<^sup>2)"
    have k: "k > 0" using False by (simp add: k_def)
    have mS: "m = S / k" using m by (simp add: k_def S_def)
    have m'S: "m' = (S + z) / (k + 1)" using mean by (simp add: k_def S_def)
    have l: "(\<Sum>y\<leftarrow>zs @ [z]. (y - m')\<^sup>2) = Q - 2 * m' * S + k * m'\<^sup>2 + (z - m')\<^sup>2"
      by (simp add: sum_sq_dev Q_def S_def k_def)
    have r: "(\<Sum>y\<leftarrow>zs. (y - m)\<^sup>2) = Q - 2 * m * S + k * m\<^sup>2"
      by (simp add: sum_sq_dev Q_def S_def k_def)
    have "Q - 2 * m' * S + k * m'\<^sup>2 + (z - m')\<^sup>2 = Q - 2 * m * S + k * m\<^sup>2 + (z - m) * (z - m')"
    proof -
      have k0: "k \<noteq> 0" and k1: "k + 1 \<noteq> 0" using k by simp_all
      show ?thesis
        unfolding mS m'S using k0 k1
        by (simp add: divide_simps power2_eq_square) (simp add: algebra_simps)
    qed
    with l r show ?thesis by simp
  qed
qed

lemma update_same_length:
  assumes "length state = length (mean nz)" and "length (var nz) = length (mean nz)"
  shows "\<exists>nz'. update nz state = (None, nz') \<and> count nz' = count nz + 1
           \<and> state_dim nz' = state_dim nz \<and> clip_range nz' = clip_range nz
           \<and> length (mean nz') = length (mean nz) \<and> length (var nz') = length (var nz)
           \<and> (\<forall>i < length state.
                 mean nz' ! i = mean nz ! i + (state ! i - mean nz ! i) / real_of_int (count nz + 1)
                 \<and> var nz' ! i = var nz ! i + (state ! i - mean nz ! i) * (state ! i - mean nz' ! i))"
  using assms by (simp add: update_def broadcast2_def inplace2_def Let_def)

lemma update_all_welford_inv:
  assumes "\<forall>x \<in> set xs. length x = d"
    and "length (mean nz) = d" and "length (var nz) = d" and "count nz = int (length ys)"
    and "\<forall>i < d. mean nz ! i = (\<Sum>y\<leftarrow>ys. y ! i) / real (length ys)"
    and "\<forall>i < d. var nz ! i = v0 + (\<Sum>y\<leftarrow>ys. (y ! i - mean nz ! i)\<^sup>2)"
  shows "\<exists>nz'. update_all nz xs = (None, nz') \<and> count nz' = int (length (ys @ xs))
           \<and> state_dim nz' = state_dim nz \<and> clip_range nz' = clip_range nz
           \<and> length (mean nz') = d \<and> length (var nz') = d
           \<and> (\<forall>i < d. mean nz' ! i = (\<Sum>y\<leftarrow>ys @ xs. y ! i) / real (length (ys @ xs))
                 \<and> var nz' ! i = v0 + (\<Sum>y\<leftarrow>ys @ xs. (y ! i - mean nz' ! i)\<^sup>2))"
  using assms
proof (induction xs arbitrary: nz ys)
  case Nil
  then show ?case by simp
next
  case (Cons x xs)
  from Cons.prems have lx: "length x = length (mean nz)" "length (var nz) = length (mean nz)"
    by simp_all
  from update_same_length [OF lx] obtain nz1 where
    u: "update nz x = (None, nz1)" and c1: "count nz1 = count nz + 1"
    and sd: "state_dim nz1 = state_dim nz" "clip_range nz1 = clip_range nz"
    and l1: "length (mean nz1) = length (mean nz)" "length (var nz1) = length (var nz)"
    and step: "\<forall>i < length x.
        mean nz1 ! i = mean nz ! i + (x ! i - mean nz ! i) / real_of_int (count nz + 1)
        \<and> var nz1 ! i = var nz ! i + (x ! i - mean nz ! i) * (x ! i - mean nz1 ! i)"
    by blast
  have inv: "mean nz1 ! i = (\<Sum>y\<leftarrow>ys @ [x]. y ! i) / real (length (ys @ [x]))
      \<and> var nz1 ! i = v0 + (\<Sum>y\<leftarrow>ys @ [x]. (y ! i - mean nz1 ! i)\<^sup>2)"
    if i: "i < d" for i
  proof -
    let ?zs = "map (\<lambda>y. y ! i) ys"
    from Cons.prems i have m: "mean nz ! i = sum_list ?zs / real (length ?zs)"
      by simp
    from Cons.prems have cnt: "real_of_int (count nz + 1) = real (length ?zs + 1)" by simp
    from step i Cons.prems have
      m1: "mean nz1 ! i = mean nz ! i + (x ! i - mean nz ! i) / real (length ?zs + 1)"
      and v1: "var nz1 ! i = var nz ! i + (x ! i - mean nz ! i) * (x ! i - mean nz1 ! i)"
      unfolding cnt [symmetric] by simp_all
    from welford_step [OF m m1]
    have a: "mean nz1 ! i = sum_list (?zs @ [x ! i]) / real (length (?zs @ [x ! i]))"
      and b: "(\<Sum>y\<leftarrow>?zs @ [x ! i]. (y - mean nz1 ! i)\<^sup>2) =
          (\<Sum>y\<leftarrow>?zs. (y - mean nz ! i)\<^sup>2) + (x ! i - mean nz ! i) * (x ! i - mean nz1 ! i)"
      by simp_all
    from Cons.prems i have v: "var nz ! i = v0 + (\<Sum>y\<leftarrow>?zs. (y - mean nz ! i)\<^sup>2)"
      by (simp add: o_def)
    have "var nz1 ! i = v0 + (\<Sum>y\<leftarrow>?zs @ [x ! i]. (y - mean nz1 ! i)\<^sup>2)"
      unfolding v1 v b by simp
    with a show ?thesis by (simp add: o_def)
  qed
  have "\<exists>nz'. update_all nz1 xs = (None, nz') \<and> count nz' = int (length ((ys @ [x]) @ xs))
      \<and> state_dim nz' = state_dim nz1 \<and> clip_range nz' = clip_range nz1
      \<and> length (mean nz') = d \<and> length (var nz') = d
      \<and> (\<forall>i < d. mean nz' ! i = (\<Sum>y\<leftarrow>(ys @ [x]) @ xs. y ! i) / real (length ((ys @ [x]) @ xs))
            \<and> var nz' ! i = v0 + (\<Sum>y\<leftarrow>(ys @ [x]) @ xs. (y ! i - mean nz' ! i)\<^sup>2))"
  proof (rule Cons.IH)
    show "\<forall>x \<in> set xs. length x = d" using Cons.prems by simp
    show "length (mean nz1) = d" "length (var nz1) = d" using l1 Cons.prems by simp_all
    show "count nz1 = int (length (ys @ [x]))" using c1 Cons.prems by simp
    show "\<forall>i < d. mean nz1 ! i = (\<Sum>y\<leftarrow>ys @ [x]. y ! i) / real (length (ys @ [x]))"
      using inv by blast
    show "\<forall>i < d. var nz1 ! i = v0 + (\<Sum>y\<leftarrow>ys @ [x]. (y ! i - mean nz1 ! i)\<^sup>2)"
      using inv by blast
  qed
  then show ?case using u sd by simp
qed

lemma update_all_running_statistics:
  assumes "init d c = Inr nz0" and "\<forall>x \<in> set xs. int (length x) = d"
  shows "\<exists>nz. update_all nz0 xs = (None, nz) \<and> count nz = int (length xs)
           \<and> length (mean nz) = nat d \<and> length (var nz) = nat d
           \<and> (\<forall>i < nat d. mean nz ! i = (\<Sum>x\<leftarrow>xs. x ! i) / real (length xs)
                 \<and> var nz ! i = 1 + (\<Sum>x\<leftarrow>xs. (x ! i - mean nz ! i)\<^sup>2))"
proof -
  from assms(1) have nz0: "nz0 = \<lparr>state_dim = d, clip_range = c, mean = replicate (nat d) 0,
      var = replicate (nat d) 1, count = 0\<rparr>" and d: "0 \<le> d"
    by (auto simp: init_def split: if_splits)
  have "\<exists>nz'. update_all nz0 xs = (None, nz') \<and> count nz' = int (length ([] @ xs))
      \<and> state_dim nz' = state_dim nz0 \<and> clip_range nz' = clip_range nz0
      \<and> length (mean nz') = nat d \<and> length (var nz') = nat d
      \<and> (\<forall>i < nat d. mean nz' ! i = (\<Sum>y\<leftarrow>[] @ xs. y ! i) / real (length ([] @ xs))
            \<and> var nz' ! i = 1 + (\<Sum>y\<leftarrow>[] @ xs. (y ! i - mean nz' ! i)\<^sup>2))"
  proof (rule update_all_welford_inv)
    show "\<forall>x \<in> set xs. length x = nat d" using assms(2) by auto
  qed (simp_all add: nz0)
  then show ?thesis unfolding append_Nil by blast
qed

text \<open>
  C4. A fresh normalizer of one feature, updated with the observations 1 and 3, has
  count 2 and mean 2, and its \<open>var\<close> is 3: the constructor starts \<open>var\<close> at one, so the
  sum of squared deviations, here 2, comes out one too large, as it does in general by
  \<open>update_all_running_statistics\<close>, and \<open>normalize_running\<close> divides by
  \<open>sqrt (3 / 1 + 1e-8)\<close> where the sample standard deviation is \<open>sqrt 2\<close>.
\<close>

theorem welford_var_starts_at_one:
  "init 1 10 = Inr ex_fresh
   \<and> update_all ex_fresh [[1], [3]] = (None, ex_saved)
   \<and> var ex_saved = [3]
   \<and> [(1 - 2)\<^sup>2 + (3 - 2)\<^sup>2] = [2::real]
   \<and> running_std ex_saved = [sqrt (3 / 1 + 1 / 10 ^ 8)]"
  by (simp add: init_def ex_fresh_def ex_saved_def update_def broadcast2_def inplace2_def Let_def
        running_std_def)


end
